theory Spec2Isabelle
  imports Main "HOL-Library.AList" "HOL-Library.Char_ord" "HOL-Library.List_Lexorder"
begin

section \<open>The CSV ID converter (main.py)\<close>

text \<open>
  The program reads CSV files through pandas, collects the identifiers of one column
  into a Python set, unions them with a pool of identifiers read from a second folder
  and writes the sorted result as a one-column CSV file. It works on the file system and
  on the standard output, so both are the state of the model.

  What lies outside the repository is modelled as follows.
  \<^item> A path is the list of its components (pathlib's \<open>parts\<close>): \<open>Path("input")\<close> is
    \<open>[''input'']\<close>, \<open>/\<close> appends a component, \<open>parent\<close> drops the last one.
    \<open>str\<close> and \<open>Path\<close> are inverse to each other and are left out.
  \<^item> The file system is an association list from paths to nodes, in the order in which
    the system enumerates them. A node is a directory, a file that pandas cannot parse
    (with the message of the exception) or a file that pandas parses to a given frame.
  \<^item> A frame is the list of its columns, each a name with its cells; a cell is missing
    (\<open>NaN\<close>) or holds the string that \<open>astype(str)\<close> gives for its value.
  \<^item> A Python set of strings is a set of strings; \<open>sorted(list(s))\<close> is the sorted
    enumeration of a finite set. Python compares strings code point by code point, which
    is the lexicographic order of \<open>HOL-Library.List_Lexorder\<close> over the order of
    characters of \<open>HOL-Library.Char_ord\<close>.
  \<^item> A printed line is the list of the fragments of its f-string: the literal pieces
    and the interpolated values, unrendered. A pictograph of the source is the fragment
    \<open>Pict\<close> of its code point.
\<close>

subsection \<open>Paths\<close>

type_synonym path = "string list"

definition endswith :: "string \<Rightarrow> string \<Rightarrow> bool" where
  "endswith s t = (length t \<le> length s \<and> drop (length s - length t) s = t)"

fun rfind :: "string \<Rightarrow> char \<Rightarrow> nat option" where
  "rfind [] c = None"
| "rfind (x # xs) c =
     (case rfind xs c of
        Some i \<Rightarrow> Some (Suc i)
      | None \<Rightarrow> if x = c then Some 0 else None)"

definition path_name :: "path \<Rightarrow> string" where
  "path_name p = (if p = [] then [] else last p)"

definition path_parent :: "path \<Rightarrow> path" where
  "path_parent p = butlast p"

text \<open>
  pathlib: \<open>i = name.rfind('.')\<close>; when \<open>0 < i < len(name) - 1\<close> the suffix is
  \<open>name[i:]\<close> and the stem \<open>name[:i]\<close>, otherwise the suffix is empty and the stem is
  the name.
\<close>

definition name_suffix :: "string \<Rightarrow> string" where
  "name_suffix n =
     (case rfind n (CHR ''.'') of
        None \<Rightarrow> []
      | Some i \<Rightarrow> if 0 < i \<and> int i < int (length n) - 1 then drop i n else [])"

definition name_stem :: "string \<Rightarrow> string" where
  "name_stem n =
     (case rfind n (CHR ''.'') of
        None \<Rightarrow> n
      | Some i \<Rightarrow> if 0 < i \<and> int i < int (length n) - 1 then take i n else n)"

definition path_suffix :: "path \<Rightarrow> string" where
  "path_suffix p = name_suffix (path_name p)"

definition path_stem :: "path \<Rightarrow> string" where
  "path_stem p = name_stem (path_name p)"

text \<open>\<open>parent / f"{stem}_converted{suffix}"\<close>, the default output path of both
  \<open>convert_csv_with_merge\<close> (line 99) and \<open>main\<close> (line 185).\<close>

definition converted_path :: "path \<Rightarrow> path" where
  "converted_path p = path_parent p @ [path_stem p @ ''_converted'' @ path_suffix p]"

subsection \<open>Frames, files, printed lines\<close>

datatype cell = NaN | Val string

type_synonym frame = "(string \<times> cell list) list"

datatype frag =
    Lit string
  | Pict string
  | Str string
  | Num int
  | PathStr path
  | ReprStr string
  | ReprPath path
  | ReprList "string list"

type_synonym message = "frag list"

datatype exn =
    FileNotFoundError path
  | IsADirectoryError path
  | ParserError string
  | KeyError string
  | ValueError message
  | OSError message

text \<open>\<open>str(e)\<close>, as an f-string interpolates an exception.\<close>

fun str_exn :: "exn \<Rightarrow> message" where
  "str_exn (FileNotFoundError p) = [Lit ''[Errno 2] No such file or directory: '', ReprPath p]"
| "str_exn (IsADirectoryError p) = [Lit ''[Errno 21] Is a directory: '', ReprPath p]"
| "str_exn (ParserError m) = [Str m]"
| "str_exn (KeyError k) = [ReprStr k]"
| "str_exn (ValueError m) = m"
| "str_exn (OSError m) = m"

text \<open>The single quote, for the literals that begin or end with one.\<close>

definition sq :: string where
  "sq = [CHR 0x27]"

datatype node = Dir | Unreadable string | Table frame

record world =
  fs :: "(path \<times> node) list"
  out :: "message list"

definition print :: "message \<Rightarrow> world \<Rightarrow> world" where
  "print m w = w\<lparr>out := out w @ [m]\<rparr>"

definition path_exists :: "world \<Rightarrow> path \<Rightarrow> bool" where
  "path_exists w p = (map_of (fs w) p \<noteq> None)"

text \<open>\<open>folder.glob("*.csv")\<close>: the entries of the directory whose name ends with
  \<open>.csv\<close>, in the order of the file system; nothing when the folder is no directory.\<close>

definition glob_csv :: "world \<Rightarrow> path \<Rightarrow> path list" where
  "glob_csv w folder =
     (if map_of (fs w) folder = Some Dir
      then filter (\<lambda>p. p \<noteq> [] \<and> path_parent p = folder \<and> endswith (path_name p) ''.csv'')
             (map fst (fs w))
      else [])"

definition read_csv :: "world \<Rightarrow> path \<Rightarrow> exn + frame" where
  "read_csv w p =
     (case map_of (fs w) p of
        None \<Rightarrow> Inl (FileNotFoundError p)
      | Some Dir \<Rightarrow> Inl (IsADirectoryError p)
      | Some (Unreadable m) \<Rightarrow> Inl (ParserError m)
      | Some (Table df) \<Rightarrow> Inr df)"

text \<open>\<open>path.is_dir()\<close>: the path with no component is the working directory.\<close>

definition is_dir :: "world \<Rightarrow> path \<Rightarrow> bool" where
  "is_dir w p = (p = [] \<or> map_of (fs w) p = Some Dir)"

text \<open>
  \<open>df.to_csv(path, index=False)\<close>. pandas first checks the parent of the path and
  raises \<open>OSError\<close> when it is no directory (it does not exist, or it is a file); then
  it opens the path for writing, which raises on a directory. Otherwise the file is
  created, or its content replaced.
\<close>

definition to_csv :: "frame \<Rightarrow> path \<Rightarrow> world \<Rightarrow> exn + world" where
  "to_csv df p w =
     (if \<not> is_dir w (path_parent p)
      then Inl (OSError [Lit (''Cannot save file into a non-existent directory: '' @ sq),
                         PathStr (path_parent p), Lit sq])
      else if is_dir w p then Inl (IsADirectoryError p)
      else Inr (w\<lparr>fs := AList.update p (Table df) (fs w)\<rparr>))"

definition columns :: "frame \<Rightarrow> string list" where
  "columns df = map fst df"

text \<open>\<open>df[c]\<close>: the cells of the column, \<open>KeyError\<close> when there is none.\<close>

definition getcol :: "frame \<Rightarrow> string \<Rightarrow> exn + cell list" where
  "getcol df c = (case map_of df c of None \<Rightarrow> Inl (KeyError c) | Some cs \<Rightarrow> Inr cs)"

text \<open>\<open>series.dropna().astype(str)\<close>: the strings of the cells that are not missing.\<close>

fun dropna_astype_str :: "cell list \<Rightarrow> string list" where
  "dropna_astype_str [] = []"
| "dropna_astype_str (NaN # cs) = dropna_astype_str cs"
| "dropna_astype_str (Val s # cs) = s # dropna_astype_str cs"

definition len_set :: "string set \<Rightarrow> int" where
  "len_set s = int (card s)"

subsection \<open>\<open>get_merge_ids\<close> (lines 12 to 57)\<close>

text \<open>The body of the loop over the files of the merge folder (lines 34 to 52): the
  state is the world and the set \<open>merge_ids\<close>.\<close>

definition merge_file :: "path \<Rightarrow> world \<times> string set \<Rightarrow> world \<times> string set" where
  "merge_file csv_file st =
     (case st of (w, merge_ids) \<Rightarrow>
        (case read_csv w csv_file of
           Inl e \<Rightarrow>
             (print ([Lit ''   '', Pict ''U+274C'', Lit '' Error reading '',
                      Str (path_name csv_file), Lit '': ''] @ str_exn e) w, merge_ids)
         | Inr df \<Rightarrow>
             (let id_column =
                    (if ''ID'' \<in> set (columns df) then Some ''ID''
                     else if ''ID Subjektu'' \<in> set (columns df) then Some ''ID Subjektu''
                     else None)
              in case id_column of
                   Some c \<Rightarrow>
                     (case getcol df c of
                        Inl e \<Rightarrow>
                          (print ([Lit ''   '', Pict ''U+274C'', Lit '' Error reading '',
                                   Str (path_name csv_file), Lit '': ''] @ str_exn e) w, merge_ids)
                      | Inr cells \<Rightarrow>
                          (let file_ids = set (dropna_astype_str cells)
                           in (print [Lit ''   '', Pict ''U+1F4C4'', Lit '' '',
                                      Str (path_name csv_file), Lit '': '',
                                      Num (len_set file_ids), Lit '' IDs''] w,
                               merge_ids \<union> file_ids)))
                 | None \<Rightarrow>
                     (print [Lit ''   '', Pict ''U+26A0'', Lit ''  '',
                             Str (path_name csv_file), Lit '': No ID column found''] w,
                      merge_ids))))"

fun merge_loop :: "path list \<Rightarrow> world \<times> string set \<Rightarrow> world \<times> string set" where
  "merge_loop [] st = st"
| "merge_loop (csv_file # rest) st = merge_loop rest (merge_file csv_file st)"

definition get_merge_ids :: "world \<Rightarrow> world \<times> string set" where
  "get_merge_ids w =
     (let merge_folder = [''merge''] in
      if \<not> path_exists w merge_folder then (w, {})
      else
        (let csv_files = glob_csv w merge_folder in
         if csv_files = [] then (w, {})
         else
           (let w1 = print [Pict ''U+1F504'', Lit '' Found '', Num (int (length csv_files)),
                            Lit '' CSV files in merge folder''] w
            in case merge_loop csv_files (w1, {}) of
                 (w2, merge_ids) \<Rightarrow>
                   (if merge_ids \<noteq> {}
                    then print [Pict ''U+1F504'', Lit '' Total unique IDs to merge: '',
                                Num (len_set merge_ids)] w2
                    else w2,
                    merge_ids))))"

subsection \<open>\<open>convert_csv_with_merge\<close> (lines 60 to 112)\<close>

text \<open>
  The \<open>try\<close> block (lines 74 to 105). It gives the world as the block leaves it and
  either the exception that ended it or the value it returns. The set \<open>input_ids\<close> is a
  new object (line 82), and \<open>update\<close> (line 87) changes it, not \<open>merge_ids\<close>.
\<close>

definition convert_try ::
  "world \<Rightarrow> path \<Rightarrow> path option \<Rightarrow> string set option \<Rightarrow> world \<times> (exn + path)" where
  "convert_try w input_file output_file merge_ids =
     (case read_csv w input_file of
        Inl e \<Rightarrow> (w, Inl e)
      | Inr df \<Rightarrow>
          if ''ID Subjektu'' \<notin> set (columns df)
          then (w, Inl (ValueError
                  [Lit ''Column 'ID Subjektu' not found in '', PathStr input_file,
                   Lit ''. Available columns: '', ReprList (columns df)]))
          else
            (case getcol df ''ID Subjektu'' of
               Inl e \<Rightarrow> (w, Inl e)
             | Inr cells \<Rightarrow>
                 (let input_ids = set (dropna_astype_str cells);
                      merged =
                        (case merge_ids of
                           None \<Rightarrow> (w, input_ids)
                         | Some pool \<Rightarrow>
                             if pool \<noteq> {}
                             then
                               (let original_count = len_set input_ids;
                                    input_ids' = input_ids \<union> pool;
                                    merged_count = len_set input_ids' - original_count
                                in (if merged_count > 0
                                    then print [Lit ''   '', Pict ''U+1F504'', Lit '' Added '',
                                                Num merged_count,
                                                Lit '' new IDs from merge folder''] w
                                    else w,
                                    input_ids'))
                             else (w, input_ids));
                      all_ids = sorted_list_of_set (snd merged);
                      output_df = [(''ID'', map Val all_ids)];
                      output_file' =
                        (case output_file of
                           None \<Rightarrow> converted_path input_file
                         | Some p \<Rightarrow> p)
                  in case to_csv output_df output_file' (fst merged) of
                       Inl e \<Rightarrow> (fst merged, Inl e)
                     | Inr w2 \<Rightarrow>
                         (print [Pict ''U+2705'', Lit '' Successfully converted '',
                                 Num (int (length all_ids)), Lit ('' IDs from '' @ sq),
                                 PathStr input_file, Lit (sq @ '' to '' @ sq),
                                 PathStr output_file', Lit sq] w2,
                          Inr output_file'))))"

text \<open>The result of a call: the world, the set \<open>merge_ids\<close> as the call leaves it, and
  the returned value (\<open>None\<close> is the failure value of lines 109 and 112).\<close>

record conv_result =
  cr_world :: world
  cr_merge_ids :: "string set option"
  cr_result :: "path option"

definition convert_csv_with_merge ::
  "world \<Rightarrow> path \<Rightarrow> path option \<Rightarrow> string set option \<Rightarrow> conv_result" where
  "convert_csv_with_merge w input_file output_file merge_ids =
     (case convert_try w input_file output_file merge_ids of
        (w', Inr p) \<Rightarrow> \<lparr>cr_world = w', cr_merge_ids = merge_ids, cr_result = Some p\<rparr>
      | (w', Inl (FileNotFoundError q)) \<Rightarrow>
          \<lparr>cr_world = print [Pict ''U+274C'', Lit ('' Error: File '' @ sq), PathStr input_file,
                             Lit (sq @ '' not found.'')] w',
           cr_merge_ids = merge_ids, cr_result = None\<rparr>
      | (w', Inl e) \<Rightarrow>
          \<lparr>cr_world = print ([Pict ''U+274C'', Lit '' Error converting file: ''] @ str_exn e) w',
           cr_merge_ids = merge_ids, cr_result = None\<rparr>)"

subsection \<open>\<open>is_already_converted\<close> (lines 115 to 146)\<close>

definition is_already_converted :: "world \<Rightarrow> path \<Rightarrow> bool" where
  "is_already_converted w file_path =
     (if endswith (path_stem file_path) ''_converted'' then True
      else
        (case read_csv w file_path of
           Inl e \<Rightarrow> False
         | Inr df \<Rightarrow>
             (let cols = columns df in
              if length cols = 1 \<and> cols ! 0 = ''ID'' then True
              else if ''ID Subjektu'' \<in> set cols then False
              else True)))"

subsection \<open>\<open>main\<close> (lines 149 to 202)\<close>

record loop_state =
  world_of :: world
  merge_ids :: "string set"
  converted_count :: int
  skipped_count :: int

text \<open>The body of the loop over the files of the input folder (lines 176 to 196).\<close>

definition process_file :: "path \<Rightarrow> loop_state \<Rightarrow> loop_state" where
  "process_file csv_file st =
     (let w1 = print [Lit [CHR 0x0A], Pict ''U+1F4C4'', Lit '' Processing: '',
                      Str (path_name csv_file)] (world_of st)
      in if is_already_converted w1 csv_file
         then st\<lparr>world_of :=
                    print [Pict ''U+23ED'', Lit (''  Skipping '' @ sq), Str (path_name csv_file),
                           Lit (sq @ '' - already converted or no 'ID Subjektu' column'')] w1,
                  skipped_count := skipped_count st + 1\<rparr>
         else
           (let output_file = converted_path csv_file in
            if path_exists w1 output_file
            then st\<lparr>world_of :=
                       print [Pict ''U+23ED'', Lit (''  Skipping '' @ sq),
                              Str (path_name csv_file),
                              Lit (sq @ '' - converted file already exists: ''),
                              Str (path_name output_file)] w1,
                     skipped_count := skipped_count st + 1\<rparr>
            else
              (let r = convert_csv_with_merge w1 csv_file (Some output_file)
                         (Some (merge_ids st))
               in st\<lparr>world_of := cr_world r,
                       merge_ids := (case cr_merge_ids r of
                                       Some s \<Rightarrow> s
                                     | None \<Rightarrow> merge_ids st),
                       converted_count :=
                         (if cr_result r \<noteq> None then converted_count st + 1
                          else converted_count st)\<rparr>)))"

fun main_loop :: "path list \<Rightarrow> loop_state \<Rightarrow> loop_state" where
  "main_loop [] st = st"
| "main_loop (csv_file # rest) st = main_loop rest (process_file csv_file st)"

text \<open>Lines 152 to 196: \<open>Inl\<close> is an early \<open>return\<close> (lines 158 and 168), \<open>Inr\<close> the
  state after the loop.\<close>

definition main_run :: "world \<Rightarrow> world + loop_state" where
  "main_run w =
     (let input_folder = [''input''] in
      if \<not> path_exists w input_folder
      then Inl (print [Lit ''Please create an 'input' folder and place your CSV files there.'']
                 (print [Pict ''U+274C'', Lit '' Error: Input folder 'input' does not exist.''] w))
      else
        (case get_merge_ids w of
           (w1, pool) \<Rightarrow>
             (let csv_files = glob_csv w1 input_folder in
              if csv_files = []
              then Inl (print [Pict ''U+274C'', Lit '' No CSV files found in 'input' folder.''] w1)
              else Inr (main_loop csv_files
                          \<lparr>world_of =
                             print [Pict ''U+1F50D'', Lit '' Found '',
                                    Num (int (length csv_files)),
                                    Lit '' CSV files in input folder''] w1,
                           merge_ids = pool, converted_count = 0, skipped_count = 0\<rparr>))))"

text \<open>Lines 198 to 202, the summary.\<close>

definition summary :: "loop_state \<Rightarrow> world" where
  "summary st =
     (let w1 = print [Lit [CHR 0x0A], Pict ''U+2705'', Lit '' Conversion complete!'']
                 (world_of st);
          w2 = print [Lit ''   '', Pict ''U+1F4CA'', Lit '' Converted: '',
                      Num (converted_count st), Lit '' files''] w1;
          w3 = print [Lit ''   '', Pict ''U+23ED'', Lit ''  Skipped: '',
                      Num (skipped_count st), Lit '' files''] w2
      in if merge_ids st \<noteq> {}
         then print [Lit ''   '', Pict ''U+1F504'', Lit '' Merged IDs from: merge folder''] w3
         else w3)"

definition main :: "world \<Rightarrow> world" where
  "main w = (case main_run w of Inl w' \<Rightarrow> w' | Inr st \<Rightarrow> summary st)"

text \<open>Lines 205 and 206: the script calls \<open>main()\<close> and ends; an interpreter that
  reaches the end of the script exits with status 0. No path of \<open>main\<close> raises and
  nothing in main.py calls \<open>sys.exit\<close>.\<close>

definition script :: "world \<Rightarrow> world \<times> int" where
  "script w = (main w, 0)"

section \<open>Notions used in the statements\<close>

text \<open>The identifiers of an optional pool (none for \<open>None\<close>), and the path that a call
  of the converter writes to: the given one, or the default of line 99.\<close>

definition pool_ids :: "string set option \<Rightarrow> string set" where
  "pool_ids m = (case m of None \<Rightarrow> {} | Some B \<Rightarrow> B)"

definition target :: "path \<Rightarrow> path option \<Rightarrow> path" where
  "target input_file output_file =
     (case output_file of None \<Rightarrow> converted_path input_file | Some p \<Rightarrow> p)"

text \<open>A path that \<open>to_csv\<close> can write to: its parent is a directory and it is none
  itself.\<close>

definition writable :: "world \<Rightarrow> path \<Rightarrow> bool" where
  "writable w p = (is_dir w (path_parent p) \<and> \<not> is_dir w p)"

text \<open>
  What the specification lets one file of the merge folder contribute: the strings of the
  cells that are not missing (\<open>present\<close>) of the column \<open>ID\<close> when the file has one,
  else of the column \<open>ID Subjektu\<close> when it has one, else nothing; nothing either when
  the file does not parse. The two lines that \<open>get_merge_ids\<close> prints for a file it
  cannot read (line 52) and for a file without either column (line 49).
\<close>

definition present :: "cell list \<Rightarrow> string set" where
  "present cells = set (concat (map (\<lambda>c. case c of NaN \<Rightarrow> [] | Val s \<Rightarrow> [s]) cells))"

definition spec_file_ids :: "world \<Rightarrow> path \<Rightarrow> string set" where
  "spec_file_ids w p =
     (case read_csv w p of
        Inl e \<Rightarrow> {}
      | Inr df \<Rightarrow>
          (case map_of df ''ID'' of
             Some cells \<Rightarrow> present cells
           | None \<Rightarrow>
               (case map_of df ''ID Subjektu'' of
                  Some cells \<Rightarrow> present cells
                | None \<Rightarrow> {})))"

definition error_line :: "path \<Rightarrow> exn \<Rightarrow> message" where
  "error_line p e =
     [Lit ''   '', Pict ''U+274C'', Lit '' Error reading '', Str (path_name p), Lit '': '']
     @ str_exn e"

definition warning_line :: "path \<Rightarrow> message" where
  "warning_line p =
     [Lit ''   '', Pict ''U+26A0'', Lit ''  '', Str (path_name p), Lit '': No ID column found'']"

text \<open>
  The line that \<open>convert_csv_with_merge\<close> prints for the exception that ended its
  \<open>try\<close> block (lines 107 to 112), and the line that \<open>main\<close> prints before it
  looks at a file (line 176).
\<close>

definition convert_error_line :: "path \<Rightarrow> exn \<Rightarrow> message" where
  "convert_error_line input_file e =
     (case e of
        FileNotFoundError q \<Rightarrow>
          [Pict ''U+274C'', Lit ('' Error: File '' @ sq), PathStr input_file,
           Lit (sq @ '' not found.'')]
      | _ \<Rightarrow> [Pict ''U+274C'', Lit '' Error converting file: ''] @ str_exn e)"

definition processing_line :: "path \<Rightarrow> message" where
  "processing_line p =
     [Lit [CHR 0x0A], Pict ''U+1F4C4'', Lit '' Processing: '', Str (path_name p)]"

text \<open>
  Two notions for the effect of a run on the files. The world \<open>w'\<close> extends \<open>w\<close>
  by the paths \<open>N\<close> when every path of \<open>w\<close> is still there with the node it had, and
  every path that is new lies in \<open>N\<close>. A candidate file is settled when the driver
  has nothing to write for it: the classifier answers \<open>True\<close>, or a file exists at its
  default output path, or it cannot be read, or its folder is no directory (so that
  nothing can be written next to it).
\<close>

definition extends_by :: "path set \<Rightarrow> world \<Rightarrow> world \<Rightarrow> bool" where
  "extends_by N w w' =
     ((\<forall>p. map_of (fs w) p \<noteq> None \<longrightarrow> map_of (fs w') p = map_of (fs w) p)
      \<and> (\<forall>p. map_of (fs w) p = None \<and> map_of (fs w') p \<noteq> None \<longrightarrow> p \<in> N))"

definition settled :: "world \<Rightarrow> path \<Rightarrow> bool" where
  "settled w f =
     (is_already_converted w f \<or> path_exists w (converted_path f)
      \<or> (\<exists>e. read_csv w f = Inl e) \<or> \<not> is_dir w (path_parent f))"

section \<open>Worlds for the examples\<close>

text \<open>An input folder with a file that has no identifier column, next to the output of
  an earlier run.\<close>

definition w_nocol :: world where
  "w_nocol = \<lparr>fs = [([''input''], Dir),
               ([''input'', ''a.csv''], Table [(''Name'', [Val ''x'']), (''Code'', [Val ''7''])]),
               ([''input'', ''a_converted.csv''], Table [(''ID'', [Val ''old''])])],
         out = []\<rparr>"

text \<open>The fixture of test_converter.py: one input file and one merge file.\<close>

definition w_test :: world where
  "w_test =
     \<lparr>fs = [([''input''], Dir),
             ([''merge''], Dir),
             ([''input'', ''test_input.csv''],
              Table [(''Name'', [Val ''Test Org 1'', Val ''Test Org 2'', Val ''Duplicate ID'']),
                     (''ID Subjektu'', [Val ''TEST-001'', Val ''TEST-002'', Val ''MERGE-001'']),
                     (''Date'', [Val ''2025-05-30'', Val ''2025-05-30'', Val ''2025-05-30'']),
                     (''Type'', [Val ''Organization'', Val ''Organization'', Val ''Organization''])]),
             ([''merge'', ''test_merge.csv''],
              Table [(''ID'', [Val ''MERGE-001'', Val ''MERGE-002'', Val ''MERGE-003''])])],
      out = []\<rparr>"

text \<open>A merge folder with a file of each kind: the column \<open>ID\<close>, the column
  \<open>ID Subjektu\<close>, neither, unparseable, both, and a file that is no CSV file.\<close>

definition w_merge :: world where
  "w_merge =
     \<lparr>fs = [([''merge''], Dir),
             ([''merge'', ''a.csv''], Table [(''ID'', [Val ''A1'', NaN, Val ''A2''])]),
             ([''merge'', ''b.csv''], Table [(''Name'', [Val ''n'']), (''ID Subjektu'', [Val ''B1''])]),
             ([''merge'', ''c.csv''], Table [(''Name'', [Val ''n'']), (''Code'', [Val ''C1''])]),
             ([''merge'', ''d.csv''], Unreadable ''Error tokenizing data''),
             ([''merge'', ''e.csv''], Table [(''ID Subjektu'', [Val ''E1'']), (''ID'', [Val ''E2''])]),
             ([''merge'', ''notes.txt''], Unreadable ''text'')],
      out = []\<rparr>"

text \<open>An input file whose identifier column has only missing values.\<close>

definition w_blank :: world where
  "w_blank =
     \<lparr>fs = [([''input''], Dir),
             ([''input'', ''blank.csv''],
              Table [(''Name'', [Val ''a'', Val ''b'']), (''ID Subjektu'', [NaN, NaN])])],
      out = []\<rparr>"

text \<open>Identifiers that look like numbers: the same files enumerated in two orders, and
  an input file with the rows of the first in another order, one of them twice.\<close>

definition w_num1 :: world where
  "w_num1 =
     \<lparr>fs = [([''input''], Dir),
             ([''merge''], Dir),
             ([''input'', ''n.csv''], Table [(''ID Subjektu'', [Val ''2'', Val ''10''])]),
             ([''merge'', ''a.csv''], Table [(''ID'', [Val ''9''])]),
             ([''merge'', ''b.csv''], Table [(''ID Subjektu'', [Val ''100''])])],
      out = []\<rparr>"

definition w_num2 :: world where
  "w_num2 =
     \<lparr>fs = [([''merge'', ''b.csv''], Table [(''ID Subjektu'', [Val ''100''])]),
             ([''merge'', ''a.csv''], Table [(''ID'', [Val ''9''])]),
             ([''input'', ''n.csv''], Table [(''ID Subjektu'', [Val ''2'', Val ''10''])]),
             ([''merge''], Dir),
             ([''input''], Dir)],
      out = []\<rparr>"

definition w_num3 :: world where
  "w_num3 =
     \<lparr>fs = [([''input''], Dir),
             ([''input'', ''m.csv''], Table [(''ID Subjektu'', [Val ''10'', Val ''2'', Val ''2''])])],
      out = []\<rparr>"

text \<open>An input folder with a file of each class, an input folder with a file that does
  not parse, and a project without input folder; the states in which \<open>main\<close> enters its
  loop there.\<close>

definition w_class :: world where
  "w_class =
     \<lparr>fs = [([''input''], Dir),
             ([''input'', ''x_converted.csv''],
              Table [(''Name'', [Val ''a'']), (''ID Subjektu'', [Val ''X1''])]),
             ([''input'', ''ids.csv''], Table [(''ID'', [Val ''I1''])]),
             ([''input'', ''data.csv''],
              Table [(''Name'', [Val ''a'']), (''ID Subjektu'', [Val ''D1'']), (''Type'', [Val ''t''])]),
             ([''input'', ''other.csv''],
              Table [(''Name'', [Val ''a'']), (''Code'', [Val ''O1''])])],
      out = []\<rparr>"

definition w_bad :: world where
  "w_bad =
     \<lparr>fs = [([''input''], Dir),
             ([''input'', ''bad.csv''], Unreadable ''Error tokenizing data'')],
      out = []\<rparr>"

definition w_none :: world where
  "w_none = \<lparr>fs = [([''merge''], Dir), ([''merge'', ''a.csv''], Table [(''ID'', [Val ''A1''])])],
             out = []\<rparr>"

definition st_class :: loop_state where
  "st_class = \<lparr>world_of = w_class, merge_ids = {}, converted_count = 0, skipped_count = 0\<rparr>"

definition st_bad :: loop_state where
  "st_bad = \<lparr>world_of = w_bad, merge_ids = {''M1''}, converted_count = 0, skipped_count = 0\<rparr>"

text \<open>The state in which a second run of the fixture meets the input file.\<close>

definition st_rerun :: loop_state where
  "st_rerun = \<lparr>world_of = main w_test, merge_ids = {}, converted_count = 0, skipped_count = 0\<rparr>"

section \<open>Properties\<close>

subsection \<open>Printing\<close>

lemma fs_print [simp]: "fs (print m w) = fs w"
  by (simp add: print_def)

lemma out_print [simp]: "out (print m w) = out w @ [m]"
  by (simp add: print_def)

subsection \<open>The converter on a file without the identifier column\<close>

text \<open>
  Claim C5. When the input file parses and its header has no column named exactly
  \<open>ID Subjektu\<close>, \<open>convert_csv_with_merge\<close> does not raise: it prints one line, the
  error, which holds the path of the file and the list of the columns that are there,
  returns the failure value \<open>None\<close>, and leaves every file as it was, so that no output
  file is created or overwritten.
\<close>

theorem convert_missing_column_error:
  assumes "read_csv w input_file = Inr df"
    and "''ID Subjektu'' \<notin> set (columns df)"
  shows "convert_csv_with_merge w input_file output_file pool =
           \<lparr>cr_world =
              print [Pict ''U+274C'', Lit '' Error converting file: '',
                     Lit ''Column 'ID Subjektu' not found in '', PathStr input_file,
                     Lit ''. Available columns: '', ReprList (columns df)] w,
            cr_merge_ids = pool, cr_result = None\<rparr>
         \<and> fs (cr_world (convert_csv_with_merge w input_file output_file pool)) = fs w"
  using assms by (simp add: convert_csv_with_merge_def convert_try_def)

theorem convert_missing_column_error_witness:
  "read_csv w_nocol [''input'', ''a.csv''] = Inr [(''Name'', [Val ''x'']), (''Code'', [Val ''7''])]
   \<and> ''ID Subjektu'' \<notin> set (columns [(''Name'', [Val ''x'']), (''Code'', [Val ''7''])])
   \<and> cr_result (convert_csv_with_merge w_nocol [''input'', ''a.csv''] None (Some {''m''})) = None
   \<and> out (cr_world (convert_csv_with_merge w_nocol [''input'', ''a.csv''] None (Some {''m''}))) =
       [[Pict ''U+274C'', Lit '' Error converting file: '',
         Lit ''Column 'ID Subjektu' not found in '', PathStr [''input'', ''a.csv''],
         Lit ''. Available columns: '', ReprList [''Name'', ''Code'']]]
   \<and> map_of (fs (cr_world (convert_csv_with_merge w_nocol [''input'', ''a.csv''] None (Some {''m''}))))
        [''input'', ''a_converted.csv''] = Some (Table [(''ID'', [Val ''old''])])"
  using convert_missing_column_error
    [of w_nocol "[''input'', ''a.csv'']" "[(''Name'', [Val ''x'']), (''Code'', [Val ''7''])]" None "Some {''m''}"]
  by (simp add: read_csv_def columns_def w_nocol_def)

subsection \<open>The converter on a file with the identifier column\<close>

lemma set_dropna_astype_str: "set (dropna_astype_str cells) = {s. Val s \<in> set cells}"
  by (induction cells rule: dropna_astype_str.induct) auto

lemma getcol_present: "map_of df c = Some cells \<Longrightarrow> getcol df c = Inr cells"
  by (simp add: getcol_def)

lemma column_present: "map_of df c = Some cells \<Longrightarrow> c \<in> set (columns df)"
  by (metis columns_def domI dom_map_of_conv_image_fst list.set_map)

lemma is_dir_print [simp]: "is_dir (print m w) p = is_dir w p"
  by (simp add: is_dir_def)

lemma to_csv_writable:
  "writable w p \<Longrightarrow> to_csv df p w = Inr (w\<lparr>fs := AList.update p (Table df) (fs w)\<rparr>)"
  by (simp add: to_csv_def writable_def)

lemma to_csv_unwritable: "\<not> writable w p \<Longrightarrow> \<exists>e. to_csv df p w = Inl e"
  by (simp add: to_csv_def writable_def)

lemma writable_print [simp]: "writable (print m w) p = writable w p"
  by (simp add: writable_def)

lemma convert_ok:
  assumes "read_csv w input_file = Inr df"
    and "map_of df ''ID Subjektu'' = Some cells"
    and "writable w (target input_file output_file)"
  shows "cr_result (convert_csv_with_merge w input_file output_file pool) =
           Some (target input_file output_file)"
    and "fs (cr_world (convert_csv_with_merge w input_file output_file pool)) =
           AList.update (target input_file output_file)
             (Table [(''ID'', map Val (sorted_list_of_set ({s. Val s \<in> set cells} \<union> pool_ids pool)))])
             (fs w)"
    and "cr_merge_ids (convert_csv_with_merge w input_file output_file pool) = pool"
  using assms column_present[OF assms(2)]
  by (auto simp add: convert_csv_with_merge_def convert_try_def getcol_present Let_def
      to_csv_writable set_dropna_astype_str pool_ids_def target_def split: option.splits)

text \<open>When the output path cannot be written, the exception of \<open>to_csv\<close> is caught:
  the converter returns the failure value and no file is changed.\<close>

lemma convert_unwritable:
  assumes "map_of df ''ID Subjektu'' = Some cells"
    and "read_csv w input_file = Inr df"
    and "\<not> writable w (target input_file output_file)"
  shows "cr_result (convert_csv_with_merge w input_file output_file pool) = None"
    and "fs (cr_world (convert_csv_with_merge w input_file output_file pool)) = fs w"
proof -
  let ?merged = "(case pool of
       None \<Rightarrow> (w, set (dropna_astype_str cells))
     | Some B \<Rightarrow>
         if B \<noteq> {}
         then (let original_count = len_set (set (dropna_astype_str cells));
                   input_ids' = set (dropna_astype_str cells) \<union> B;
                   merged_count = len_set input_ids' - original_count
               in (if merged_count > 0
                   then print [Lit ''   '', Pict ''U+1F504'', Lit '' Added '', Num merged_count,
                               Lit '' new IDs from merge folder''] w
                   else w,
                   input_ids'))
         else (w, set (dropna_astype_str cells)))"
  have f: "fs (fst ?merged) = fs w"
    by (simp add: Let_def split: option.splits)
  then have "\<not> writable (fst ?merged) (target input_file output_file)"
    using assms(3) by (simp add: writable_def is_dir_def)
  then obtain e where e: "to_csv [(''ID'', map Val (sorted_list_of_set (snd ?merged)))]
      (target input_file output_file) (fst ?merged) = Inl e"
    using to_csv_unwritable by blast
  have t: "convert_try w input_file output_file pool = (fst ?merged, Inl e)"
    using assms(2) column_present[OF assms(1)] e
    by (simp add: convert_try_def getcol_present[OF assms(1)] Let_def target_def)
  show "cr_result (convert_csv_with_merge w input_file output_file pool) = None"
    by (cases e) (simp_all add: convert_csv_with_merge_def t)
  show "fs (cr_world (convert_csv_with_merge w input_file output_file pool)) = fs w"
    using f by (cases e) (simp_all add: convert_csv_with_merge_def t)
qed

lemma finite_ids: "finite B \<Longrightarrow> finite ({s. Val s \<in> set cells} \<union> B)"
  by (metis List.finite_set finite_Un set_dropna_astype_str)

text \<open>
  Claim C1. Let the input file parse to a frame whose column \<open>ID Subjektu\<close> has the
  cells \<open>cells\<close>, and let \<open>A\<close> be the strings of the cells that are not missing. For
  every pool \<open>B\<close> (a finite set, or none) and every output path that can be written
  (its parent is a directory and it is none itself), the converter returns the output path
  and the file it wrote there has the single column \<open>ID\<close>; the rows of that column are
  exactly \<open>A \<union> B\<close>, without duplicates and without a missing entry, and without an
  empty entry as long as the reader gave no empty string and the pool holds none
  (pandas reads an empty field as missing).
\<close>

theorem convert_output_is_union:
  assumes "read_csv w input_file = Inr df"
    and "map_of df ''ID Subjektu'' = Some cells"
    and "finite (pool_ids pool)"
    and "writable w (target input_file output_file)"
  shows "\<exists>rows.
           cr_result (convert_csv_with_merge w input_file output_file pool) =
             Some (target input_file output_file)
         \<and> map_of (fs (cr_world (convert_csv_with_merge w input_file output_file pool)))
              (target input_file output_file) = Some (Table [(''ID'', map Val rows)])
         \<and> set rows = {s. Val s \<in> set cells} \<union> pool_ids pool
         \<and> distinct rows
         \<and> NaN \<notin> set (map Val rows)
         \<and> (Val [] \<notin> set cells \<and> [] \<notin> pool_ids pool \<longrightarrow> [] \<notin> set rows)"
proof -
  let ?S = "{s. Val s \<in> set cells} \<union> pool_ids pool"
  have fin: "finite ?S"
    using assms(3) by (rule finite_ids)
  have wr: "map_of (fs (cr_world (convert_csv_with_merge w input_file output_file pool)))
      (target input_file output_file) = Some (Table [(''ID'', map Val (sorted_list_of_set ?S))])"
    by (simp add: convert_ok(2)[OF assms(1,2,4)] update_conv')
  have "set (sorted_list_of_set ?S) = ?S" "distinct (sorted_list_of_set ?S)"
    using fin by simp_all
  moreover have "NaN \<notin> set (map Val (sorted_list_of_set ?S))"
    by auto
  ultimately show ?thesis
    using convert_ok(1)[OF assms(1,2,4)] wr by blast
qed

theorem convert_output_is_union_witness:
  "read_csv w_test [''input'', ''test_input.csv''] =
     Inr [(''Name'', [Val ''Test Org 1'', Val ''Test Org 2'', Val ''Duplicate ID'']),
          (''ID Subjektu'', [Val ''TEST-001'', Val ''TEST-002'', Val ''MERGE-001'']),
          (''Date'', [Val ''2025-05-30'', Val ''2025-05-30'', Val ''2025-05-30'']),
          (''Type'', [Val ''Organization'', Val ''Organization'', Val ''Organization''])]
   \<and> finite (pool_ids (Some {''MERGE-001'', ''MERGE-002'', ''MERGE-003''}))
   \<and> writable w_test (target [''input'', ''test_input.csv''] None)
   \<and> (\<exists>rows.
         map_of (fs (cr_world (convert_csv_with_merge w_test [''input'', ''test_input.csv''] None
                   (Some {''MERGE-001'', ''MERGE-002'', ''MERGE-003''}))))
           [''input'', ''test_input_converted.csv''] = Some (Table [(''ID'', map Val rows)])
         \<and> set rows = {''MERGE-001'', ''MERGE-002'', ''MERGE-003'', ''TEST-001'', ''TEST-002''}
         \<and> distinct rows \<and> [] \<notin> set rows)"
proof -
  let ?df = "[(''Name'', [Val ''Test Org 1'', Val ''Test Org 2'', Val ''Duplicate ID'']),
          (''ID Subjektu'', [Val ''TEST-001'', Val ''TEST-002'', Val ''MERGE-001'']),
          (''Date'', [Val ''2025-05-30'', Val ''2025-05-30'', Val ''2025-05-30'']),
          (''Type'', [Val ''Organization'', Val ''Organization'', Val ''Organization''])]"
  let ?cells = "[Val ''TEST-001'', Val ''TEST-002'', Val ''MERGE-001'']"
  let ?pool = "Some {''MERGE-001'', ''MERGE-002'', ''MERGE-003''}"
  have r: "read_csv w_test [''input'', ''test_input.csv''] = Inr ?df"
    by (simp add: read_csv_def w_test_def)
  have c: "map_of ?df ''ID Subjektu'' = Some ?cells"
    by simp
  have f: "finite (pool_ids ?pool)"
    by (simp add: pool_ids_def)
  have t: "target [''input'', ''test_input.csv''] None = [''input'', ''test_input_converted.csv'']"
    by (simp add: target_def converted_path_def path_parent_def path_stem_def path_suffix_def
        path_name_def name_stem_def name_suffix_def)
  have d: "writable w_test (target [''input'', ''test_input.csv''] None)"
    by code_simp
  have s: "{s. Val s \<in> set ?cells} \<union> pool_ids ?pool =
      {''MERGE-001'', ''MERGE-002'', ''MERGE-003'', ''TEST-001'', ''TEST-002''}"
    by (auto simp add: pool_ids_def)
  show ?thesis
    using convert_output_is_union[OF r c f d] r f d
    by (simp only: t s) auto
qed

subsection \<open>The merge pool\<close>

lemma present_eq: "present cells = {s. Val s \<in> set cells}"
  by (auto simp add: present_def split: cell.splits)

lemma column_absent: "map_of df c = None \<longleftrightarrow> c \<notin> set (columns df)"
  by (simp add: columns_def map_of_eq_None_iff)

lemma read_csv_fs: "fs w' = fs w \<Longrightarrow> read_csv w' p = read_csv w p"
  by (simp add: read_csv_def)

lemma spec_file_ids_fs: "fs w' = fs w \<Longrightarrow> spec_file_ids w' p = spec_file_ids w p"
  by (simp add: spec_file_ids_def read_csv_def)

lemma finite_present: "finite (present cells)"
  unfolding present_def by (rule finite_set)

lemma finite_spec_file_ids: "finite (spec_file_ids w p)"
  by (simp add: spec_file_ids_def finite_present split: sum.splits option.splits)

lemma merge_file_fs: "fs (fst (merge_file p st)) = fs (fst st)"
  by (cases st) (simp add: merge_file_def Let_def split: sum.splits option.splits)

lemma merge_file_ids: "snd (merge_file p (w, S)) = S \<union> spec_file_ids w p"
proof (cases "read_csv w p")
  case (Inl e)
  then show ?thesis
    by (simp add: merge_file_def spec_file_ids_def)
next
  case (Inr df)
  show ?thesis
  proof (cases "map_of df ''ID''")
    case (Some cells)
    then show ?thesis
      using Inr column_present[OF Some]
      by (simp add: merge_file_def spec_file_ids_def getcol_def set_dropna_astype_str present_eq Let_def)
  next
    case None
    note no_id = None
    then have a: "''ID'' \<notin> set (columns df)"
      by (simp add: column_absent)
    show ?thesis
    proof (cases "map_of df ''ID Subjektu''")
      case (Some cells)
      then show ?thesis
        using Inr a no_id column_present[OF Some]
        by (simp add: merge_file_def spec_file_ids_def getcol_def set_dropna_astype_str present_eq Let_def)
    next
      case None
      then have "''ID Subjektu'' \<notin> set (columns df)"
        by (simp add: column_absent)
      then show ?thesis
        using Inr a no_id None
        by (simp add: merge_file_def spec_file_ids_def)
    qed
  qed
qed

lemma merge_file_out: "set (out (fst st)) \<subseteq> set (out (fst (merge_file p st)))"
  by (cases st) (auto simp add: merge_file_def Let_def split: sum.splits option.splits)

lemma merge_loop_fs: "fs (fst (merge_loop ps st)) = fs (fst st)"
  by (induction ps arbitrary: st) (simp_all add: merge_file_fs)

lemma merge_loop_out: "set (out (fst st)) \<subseteq> set (out (fst (merge_loop ps st)))"
proof (induction ps arbitrary: st)
  case Nil
  then show ?case by simp
next
  case (Cons p ps)
  show ?case
    using merge_file_out[of st p] Cons.IH[of "merge_file p st"] by simp
qed

lemma merge_loop_ids:
  "fs (fst st) = fs w \<Longrightarrow> snd (merge_loop ps st) = snd st \<union> (\<Union>p\<in>set ps. spec_file_ids w p)"
proof (induction ps arbitrary: st)
  case Nil
  then show ?case by simp
next
  case (Cons p ps)
  obtain v S where st: "st = (v, S)" by (cases st)
  have "spec_file_ids v p = spec_file_ids w p"
    using Cons.prems by (intro spec_file_ids_fs) (simp add: st)
  then have "snd (merge_file p st) = S \<union> spec_file_ids w p"
    by (simp add: st merge_file_ids)
  moreover have "fs (fst (merge_file p st)) = fs w"
    using Cons.prems by (simp add: merge_file_fs)
  ultimately show ?case
    using Cons.IH[of "merge_file p st"] by (auto simp add: st)
qed

lemma merge_file_error:
  "read_csv (fst st) p = Inl e \<Longrightarrow> error_line p e \<in> set (out (fst (merge_file p st)))"
  by (cases st) (simp add: merge_file_def error_line_def)

lemma merge_file_warning:
  "read_csv (fst st) p = Inr df \<Longrightarrow> ''ID'' \<notin> set (columns df)
   \<Longrightarrow> ''ID Subjektu'' \<notin> set (columns df)
   \<Longrightarrow> warning_line p \<in> set (out (fst (merge_file p st)))"
  by (cases st) (simp add: merge_file_def warning_line_def)

lemma merge_loop_error:
  "p \<in> set ps \<Longrightarrow> read_csv (fst st) p = Inl e
   \<Longrightarrow> error_line p e \<in> set (out (fst (merge_loop ps st)))"
proof (induction ps arbitrary: st)
  case Nil
  then show ?case by simp
next
  case (Cons q ps)
  show ?case
  proof (cases "p = q")
    case True
    then have "error_line p e \<in> set (out (fst (merge_file q st)))"
      using Cons.prems(2) merge_file_error by blast
    then show ?thesis
      using merge_loop_out[of "merge_file q st" ps] by auto
  next
    case False
    then have "p \<in> set ps" using Cons.prems(1) by simp
    moreover have "read_csv (fst (merge_file q st)) p = Inl e"
      using Cons.prems(2) by (simp add: read_csv_fs[OF merge_file_fs])
    ultimately show ?thesis
      using Cons.IH[of "merge_file q st"] by simp
  qed
qed

lemma merge_loop_warning:
  "p \<in> set ps \<Longrightarrow> read_csv (fst st) p = Inr df \<Longrightarrow> ''ID'' \<notin> set (columns df)
   \<Longrightarrow> ''ID Subjektu'' \<notin> set (columns df)
   \<Longrightarrow> warning_line p \<in> set (out (fst (merge_loop ps st)))"
proof (induction ps arbitrary: st)
  case Nil
  then show ?case by simp
next
  case (Cons q ps)
  show ?case
  proof (cases "p = q")
    case True
    then have "warning_line p \<in> set (out (fst (merge_file q st)))"
      using Cons.prems(2,3,4) merge_file_warning by blast
    then show ?thesis
      using merge_loop_out[of "merge_file q st" ps] by auto
  next
    case False
    then have "p \<in> set ps" using Cons.prems(1) by simp
    moreover have "read_csv (fst (merge_file q st)) p = Inr df"
      using Cons.prems(2) by (simp add: read_csv_fs[OF merge_file_fs])
    ultimately show ?thesis
      using Cons.IH[of "merge_file q st"] Cons.prems(3,4) by simp
  qed
qed

lemma get_merge_ids_fs: "fs (fst (get_merge_ids w)) = fs w"
  by (simp add: get_merge_ids_def Let_def merge_loop_fs split: prod.splits)
     (metis fst_conv merge_loop_fs fs_print)

lemma glob_csv_absent: "\<not> path_exists w folder \<Longrightarrow> glob_csv w folder = []"
  by (simp add: glob_csv_def path_exists_def)

lemma get_merge_ids_ids:
  "snd (get_merge_ids w) = (\<Union>p\<in>set (glob_csv w [''merge'']). spec_file_ids w p)"
proof (cases "path_exists w [''merge''] \<and> glob_csv w [''merge''] \<noteq> []")
  case False
  then show ?thesis
    using glob_csv_absent[of w "[''merge'']"] by (auto simp add: get_merge_ids_def Let_def)
next
  case True
  let ?w1 = "print [Pict ''U+1F504'', Lit '' Found '',
                    Num (int (length (glob_csv w [''merge'']))),
                    Lit '' CSV files in merge folder''] w"
  have "snd (merge_loop (glob_csv w [''merge'']) (?w1, {})) =
      (\<Union>p\<in>set (glob_csv w [''merge'']). spec_file_ids w p)"
    using merge_loop_ids[of "(?w1, {})" w "glob_csv w [''merge'']"] by simp
  then show ?thesis
    using True by (auto simp add: get_merge_ids_def Let_def split: prod.splits)
qed

lemma finite_get_merge_ids: "finite (snd (get_merge_ids w))"
  by (simp add: get_merge_ids_ids finite_spec_file_ids)

text \<open>
  Claim C8. \<open>get_merge_ids\<close> returns the empty pool and prints nothing when the merge
  folder does not exist or holds no CSV file. Otherwise the pool is the union, over the
  CSV files of the folder, of what the specification lets each file contribute: the
  column \<open>ID\<close> is looked for first, then \<open>ID Subjektu\<close>; a file with neither
  contributes nothing and its warning is printed; a file that does not parse contributes
  nothing and its error is printed, and the files after it still contribute. No file is
  changed.
\<close>

theorem get_merge_ids_contract:
  "(\<not> path_exists w [''merge''] \<longrightarrow> get_merge_ids w = (w, {}))
   \<and> (glob_csv w [''merge''] = [] \<longrightarrow> get_merge_ids w = (w, {}))
   \<and> snd (get_merge_ids w) = (\<Union>p\<in>set (glob_csv w [''merge'']). spec_file_ids w p)
   \<and> (\<forall>p e. p \<in> set (glob_csv w [''merge'']) \<and> read_csv w p = Inl e
         \<longrightarrow> error_line p e \<in> set (out (fst (get_merge_ids w))))
   \<and> (\<forall>p df. p \<in> set (glob_csv w [''merge'']) \<and> read_csv w p = Inr df
           \<and> ''ID'' \<notin> set (columns df) \<and> ''ID Subjektu'' \<notin> set (columns df)
         \<longrightarrow> warning_line p \<in> set (out (fst (get_merge_ids w))))
   \<and> fs (fst (get_merge_ids w)) = fs w"
proof -
  let ?ps = "glob_csv w [''merge'']"
  let ?w1 = "print [Pict ''U+1F504'', Lit '' Found '', Num (int (length ?ps)),
                    Lit '' CSV files in merge folder''] w"
  have a: "\<not> path_exists w [''merge''] \<longrightarrow> get_merge_ids w = (w, {})"
    by (simp add: get_merge_ids_def)
  have b: "?ps = [] \<longrightarrow> get_merge_ids w = (w, {})"
    by (simp add: get_merge_ids_def Let_def)
  have sub: "set (out (fst (merge_loop ?ps (?w1, {})))) \<subseteq> set (out (fst (get_merge_ids w)))"
    if "p \<in> set ?ps" for p
  proof -
    have "?ps \<noteq> []" using that by auto
    moreover have "path_exists w [''merge'']"
    proof (rule ccontr)
      assume "\<not> path_exists w [''merge'']"
      then have "?ps = []" by (rule glob_csv_absent)
      then show False using that by simp
    qed
    ultimately show ?thesis
      by (auto simp add: get_merge_ids_def Let_def split: prod.splits)
  qed
  have c: "error_line p e \<in> set (out (fst (get_merge_ids w)))"
    if "p \<in> set ?ps" "read_csv w p = Inl e" for p e
  proof -
    have "read_csv (fst (?w1, {})) p = Inl e"
      using that(2) by (simp add: read_csv_def)
    then have "error_line p e \<in> set (out (fst (merge_loop ?ps (?w1, {}))))"
      using that(1) by (rule merge_loop_error[rotated])
    then show ?thesis using sub[OF that(1)] by blast
  qed
  have d: "warning_line p \<in> set (out (fst (get_merge_ids w)))"
    if "p \<in> set ?ps" "read_csv w p = Inr df" "''ID'' \<notin> set (columns df)"
      "''ID Subjektu'' \<notin> set (columns df)" for p df
  proof -
    have "read_csv (fst (?w1, {})) p = Inr df"
      using that(2) by (simp add: read_csv_def)
    then have "warning_line p \<in> set (out (fst (merge_loop ?ps (?w1, {}))))"
      using that(1,3,4) merge_loop_warning by blast
    then show ?thesis using sub[OF that(1)] by blast
  qed
  show ?thesis
    using a b c d get_merge_ids_ids[of w] get_merge_ids_fs[of w] by blast
qed

theorem get_merge_ids_contract_witness:
  "path_exists w_merge [''merge'']
   \<and> glob_csv w_merge [''merge''] =
       [[''merge'', ''a.csv''], [''merge'', ''b.csv''], [''merge'', ''c.csv''],
        [''merge'', ''d.csv''], [''merge'', ''e.csv'']]
   \<and> snd (get_merge_ids w_merge) = {''A1'', ''A2'', ''B1'', ''E2''}
   \<and> error_line [''merge'', ''d.csv''] (ParserError ''Error tokenizing data'')
       \<in> set (out (fst (get_merge_ids w_merge)))
   \<and> warning_line [''merge'', ''c.csv''] \<in> set (out (fst (get_merge_ids w_merge)))
   \<and> fs (fst (get_merge_ids w_merge)) = fs w_merge"
proof -
  have g: "glob_csv w_merge [''merge''] =
       [[''merge'', ''a.csv''], [''merge'', ''b.csv''], [''merge'', ''c.csv''],
        [''merge'', ''d.csv''], [''merge'', ''e.csv'']]"
    by code_simp
  have e: "path_exists w_merge [''merge'']"
    by code_simp
  have u: "(\<Union>p\<in>set [[''merge'', ''a.csv''], [''merge'', ''b.csv''], [''merge'', ''c.csv''],
        [''merge'', ''d.csv''], [''merge'', ''e.csv'']]. spec_file_ids w_merge p) =
      {''A1'', ''A2'', ''B1'', ''E2''}"
    by code_simp
  have d: "read_csv w_merge [''merge'', ''d.csv''] = Inl (ParserError ''Error tokenizing data'')"
    by code_simp
  have c: "read_csv w_merge [''merge'', ''c.csv''] =
      Inr [(''Name'', [Val ''n'']), (''Code'', [Val ''C1''])]"
    by code_simp
  have cc: "''ID'' \<notin> set (columns [(''Name'', [Val ''n'']), (''Code'', [Val ''C1''])])"
    "''ID Subjektu'' \<notin> set (columns [(''Name'', [Val ''n'']), (''Code'', [Val ''C1''])])"
    by (simp_all add: columns_def)
  note t = get_merge_ids_contract[of w_merge]
  have md: "[''merge'', ''d.csv''] \<in> set (glob_csv w_merge [''merge''])"
    and mc: "[''merge'', ''c.csv''] \<in> set (glob_csv w_merge [''merge''])"
    by (simp_all add: g)
  from t have "snd (get_merge_ids w_merge) =
      (\<Union>p\<in>set (glob_csv w_merge [''merge'']). spec_file_ids w_merge p)"
    by blast
  then have 1: "snd (get_merge_ids w_merge) = {''A1'', ''A2'', ''B1'', ''E2''}"
    by (simp only: g u)
  have 2: "error_line [''merge'', ''d.csv''] (ParserError ''Error tokenizing data'')
       \<in> set (out (fst (get_merge_ids w_merge)))"
    using t md d by blast
  have 3: "warning_line [''merge'', ''c.csv''] \<in> set (out (fst (get_merge_ids w_merge)))"
    using t mc c cc by blast
  have 4: "fs (fst (get_merge_ids w_merge)) = fs w_merge"
    using t by blast
  show ?thesis
    using e g 1 2 3 4 by blast
qed

subsection \<open>The converter on a file without identifiers\<close>

text \<open>
  Claim C10. When the input file has the column \<open>ID Subjektu\<close> with only missing
  values in it, the pool is absent or empty, and the output path can be written (its
  parent is a directory and it is none itself), the conversion is no error: the
  converter returns the output path, the file written there has the header \<open>ID\<close>
  and no row, and the only line printed is the line of success, with the count 0.
\<close>

theorem convert_all_missing_empty_pool:
  assumes "read_csv w input_file = Inr df"
    and "map_of df ''ID Subjektu'' = Some cells"
    and "set cells \<subseteq> {NaN}"
    and "pool = None \<or> pool = Some {}"
    and "writable w (target input_file output_file)"
  shows "cr_result (convert_csv_with_merge w input_file output_file pool) =
           Some (target input_file output_file)
         \<and> map_of (fs (cr_world (convert_csv_with_merge w input_file output_file pool)))
              (target input_file output_file) = Some (Table [(''ID'', [])])
         \<and> out (cr_world (convert_csv_with_merge w input_file output_file pool)) =
             out w @ [[Pict ''U+2705'', Lit '' Successfully converted '', Num 0,
                       Lit ('' IDs from '' @ sq), PathStr input_file, Lit (sq @ '' to '' @ sq),
                       PathStr (target input_file output_file), Lit sq]]"
proof -
  have e: "{s. Val s \<in> set cells} \<union> pool_ids pool = {}"
    using assms(3,4) by (auto simp add: pool_ids_def)
  have "set (dropna_astype_str cells) = {}"
    using assms(3) by (auto simp add: set_dropna_astype_str)
  then have d: "dropna_astype_str cells = []"
    by simp
  have o: "out (cr_world (convert_csv_with_merge w input_file output_file pool)) =
             out w @ [[Pict ''U+2705'', Lit '' Successfully converted '', Num 0,
                       Lit ('' IDs from '' @ sq), PathStr input_file, Lit (sq @ '' to '' @ sq),
                       PathStr (target input_file output_file), Lit sq]]"
    using assms(1,4,5) column_present[OF assms(2)]
    by (auto simp add: convert_csv_with_merge_def convert_try_def getcol_present[OF assms(2)]
        d to_csv_writable target_def Let_def split: option.splits)
  show ?thesis
    using convert_ok(1)[OF assms(1,2,5)] convert_ok(2)[OF assms(1,2,5), of pool] o
    by (simp add: e update_conv')
qed

theorem convert_all_missing_empty_pool_witness:
  "read_csv w_blank [''input'', ''blank.csv''] =
     Inr [(''Name'', [Val ''a'', Val ''b'']), (''ID Subjektu'', [NaN, NaN])]
   \<and> set [NaN, NaN] \<subseteq> {NaN}
   \<and> writable w_blank (target [''input'', ''blank.csv''] None)
   \<and> target [''input'', ''blank.csv''] None = [''input'', ''blank_converted.csv'']
   \<and> cr_result (convert_csv_with_merge w_blank [''input'', ''blank.csv''] None (Some {})) =
       Some [''input'', ''blank_converted.csv'']
   \<and> map_of (fs (cr_world (convert_csv_with_merge w_blank [''input'', ''blank.csv''] None (Some {}))))
        [''input'', ''blank_converted.csv''] = Some (Table [(''ID'', [])])"
proof -
  have r: "read_csv w_blank [''input'', ''blank.csv''] =
     Inr [(''Name'', [Val ''a'', Val ''b'']), (''ID Subjektu'', [NaN, NaN])]"
    by code_simp
  have c: "map_of [(''Name'', [Val ''a'', Val ''b'']), (''ID Subjektu'', [NaN, NaN])]
      ''ID Subjektu'' = Some [NaN, NaN]"
    by simp
  have s: "set [NaN, NaN] \<subseteq> {NaN}"
    by simp
  have t: "target [''input'', ''blank.csv''] None = [''input'', ''blank_converted.csv'']"
    by code_simp
  have d: "writable w_blank (target [''input'', ''blank.csv''] None)"
    by code_simp
  have p: "Some {} = None \<or> Some {} = Some ({} :: string set)"
    by simp
  show ?thesis
    using convert_all_missing_empty_pool[OF r c s p d] r s d t by simp
qed

subsection \<open>Order of the output\<close>

lemma set_glob_csv:
  "set (glob_csv w folder) =
     (if map_of (fs w) folder = Some Dir
      then {p \<in> dom (map_of (fs w)). p \<noteq> [] \<and> path_parent p = folder
              \<and> endswith (path_name p) ''.csv''}
      else {})"
  by (auto simp add: glob_csv_def dom_map_of_conv_image_fst)

lemma get_merge_ids_order:
  assumes "map_of (fs w2) = map_of (fs w1)"
  shows "snd (get_merge_ids w2) = snd (get_merge_ids w1)"
proof -
  have "set (glob_csv w2 [''merge'']) = set (glob_csv w1 [''merge''])"
    by (simp only: set_glob_csv assms)
  moreover have "spec_file_ids w2 p = spec_file_ids w1 p" for p
    by (simp add: spec_file_ids_def read_csv_def assms)
  ultimately show ?thesis
    by (simp add: get_merge_ids_ids)
qed

text \<open>
  Claim C2. The rows of the output file are in strictly ascending order of strings, the
  lexicographic order on the characters (so \<open>10\<close> stands before \<open>2\<close>, as the
  example shows). The rows are the same whatever the order of the rows of the input file
  and whatever the order in which the file system enumerates the files: two file systems
  with the same files give the same pool, and two input files with the same set of
  identifiers, in any row order, then give the same output rows (at output paths that can
  be written).
\<close>

theorem convert_output_sorted_deterministic:
  assumes "set (fs w2) = set (fs w1)"
    and "distinct (map fst (fs w1))" and "distinct (map fst (fs w2))"
    and "read_csv v1 in1 = Inr df1" and "map_of df1 ''ID Subjektu'' = Some cells1"
    and "read_csv v2 in2 = Inr df2" and "map_of df2 ''ID Subjektu'' = Some cells2"
    and "{s. Val s \<in> set cells2} = {s. Val s \<in> set cells1}"
    and "writable v1 (target in1 out1)"
    and "writable v2 (target in2 out2)"
  shows "\<exists>rows.
           map_of (fs (cr_world (convert_csv_with_merge v1 in1 out1
                                   (Some (snd (get_merge_ids w1))))))
             (target in1 out1) = Some (Table [(''ID'', map Val rows)])
         \<and> map_of (fs (cr_world (convert_csv_with_merge v2 in2 out2
                                     (Some (snd (get_merge_ids w2))))))
             (target in2 out2) = Some (Table [(''ID'', map Val rows)])
         \<and> sorted_wrt (<) rows"
proof -
  let ?B = "snd (get_merge_ids w1)"
  let ?S = "{s. Val s \<in> set cells1} \<union> ?B"
  have "map_of (fs w2) = map_of (fs w1)"
    using assms(1,2,3) by (simp add: map_of_inject_set)
  then have B: "snd (get_merge_ids w2) = ?B"
    by (rule get_merge_ids_order)
  have fin: "finite ?S"
    using finite_get_merge_ids by (rule finite_ids)
  have 1: "map_of (fs (cr_world (convert_csv_with_merge v1 in1 out1 (Some ?B))))
             (target in1 out1) = Some (Table [(''ID'', map Val (sorted_list_of_set ?S))])"
    by (simp add: convert_ok(2)[OF assms(4,5,9)] update_conv' pool_ids_def)
  have 2: "map_of (fs (cr_world (convert_csv_with_merge v2 in2 out2 (Some (snd (get_merge_ids w2))))))
             (target in2 out2) = Some (Table [(''ID'', map Val (sorted_list_of_set ?S))])"
    by (simp add: convert_ok(2)[OF assms(6,7,10)] update_conv' pool_ids_def B assms(8))
  have "sorted_wrt (<) (sorted_list_of_set ?S)"
    using fin by simp
  then show ?thesis
    using 1 2 by blast
qed

theorem convert_output_sorted_deterministic_witness:
  "set (fs w_num2) = set (fs w_num1)
   \<and> distinct (map fst (fs w_num1)) \<and> distinct (map fst (fs w_num2))
   \<and> read_csv w_num1 [''input'', ''n.csv''] = Inr [(''ID Subjektu'', [Val ''2'', Val ''10''])]
   \<and> read_csv w_num3 [''input'', ''m.csv''] =
       Inr [(''ID Subjektu'', [Val ''10'', Val ''2'', Val ''2''])]
   \<and> {s. Val s \<in> set [Val ''10'', Val ''2'', Val ''2'']} = {s. Val s \<in> set [Val ''2'', Val ''10'']}
   \<and> writable w_num1 (target [''input'', ''n.csv''] None)
   \<and> writable w_num3 (target [''input'', ''m.csv''] None)
   \<and> map_of (fs (cr_world (convert_csv_with_merge w_num1 [''input'', ''n.csv''] None
                              (Some (snd (get_merge_ids w_num1))))))
        [''input'', ''n_converted.csv''] =
       Some (Table [(''ID'', [Val ''10'', Val ''100'', Val ''2'', Val ''9''])])
   \<and> map_of (fs (cr_world (convert_csv_with_merge w_num3 [''input'', ''m.csv''] None
                              (Some (snd (get_merge_ids w_num2))))))
        [''input'', ''m_converted.csv''] =
       Some (Table [(''ID'', [Val ''10'', Val ''100'', Val ''2'', Val ''9''])])
   \<and> sorted_wrt (<) [''10'', ''100'', ''2'', ''9'']"
proof -
  have a: "set (fs w_num2) = set (fs w_num1)"
    by code_simp
  have b: "distinct (map fst (fs w_num1))" "distinct (map fst (fs w_num2))"
    by code_simp+
  have r1: "read_csv w_num1 [''input'', ''n.csv''] = Inr [(''ID Subjektu'', [Val ''2'', Val ''10''])]"
    by code_simp
  have r2: "read_csv w_num3 [''input'', ''m.csv''] =
       Inr [(''ID Subjektu'', [Val ''10'', Val ''2'', Val ''2''])]"
    by code_simp
  have c1: "map_of [(''ID Subjektu'', [Val ''2'', Val ''10''])] ''ID Subjektu'' =
      Some [Val ''2'', Val ''10'']"
    by simp
  have c2: "map_of [(''ID Subjektu'', [Val ''10'', Val ''2'', Val ''2''])] ''ID Subjektu'' =
      Some [Val ''10'', Val ''2'', Val ''2'']"
    by simp
  have s: "{s. Val s \<in> set [Val ''10'', Val ''2'', Val ''2'']} = {s. Val s \<in> set [Val ''2'', Val ''10'']}"
    by auto
  have t1: "target [''input'', ''n.csv''] None = [''input'', ''n_converted.csv'']"
    by code_simp
  have t2: "target [''input'', ''m.csv''] None = [''input'', ''m_converted.csv'']"
    by code_simp
  have d1: "writable w_num1 (target [''input'', ''n.csv''] None)"
    by code_simp
  have d2: "writable w_num3 (target [''input'', ''m.csv''] None)"
    by code_simp
  have e1: "map_of (fs (cr_world (convert_csv_with_merge w_num1 [''input'', ''n.csv''] None
                              (Some (snd (get_merge_ids w_num1))))))
        [''input'', ''n_converted.csv''] =
       Some (Table [(''ID'', [Val ''10'', Val ''100'', Val ''2'', Val ''9''])])"
    by code_simp
  have e2: "map_of (fs (cr_world (convert_csv_with_merge w_num3 [''input'', ''m.csv''] None
                              (Some (snd (get_merge_ids w_num2))))))
        [''input'', ''m_converted.csv''] =
       Some (Table [(''ID'', [Val ''10'', Val ''100'', Val ''2'', Val ''9''])])"
    by code_simp
  obtain rows where
    "map_of (fs (cr_world (convert_csv_with_merge w_num1 [''input'', ''n.csv''] None
                              (Some (snd (get_merge_ids w_num1))))))
        (target [''input'', ''n.csv''] None) = Some (Table [(''ID'', map Val rows)])"
    and srt: "sorted_wrt (<) rows"
    using convert_output_sorted_deterministic[OF a b r1 c1 r2 c2 s d1 d2] by blast
  then have "map Val rows = map Val [''10'', ''100'', ''2'', ''9'']"
    using e1 by (simp add: t1)
  then have "rows = [''10'', ''100'', ''2'', ''9'']"
    by (rule map_injective) (simp add: inj_on_def)
  then show ?thesis
    using a b r1 r2 s d1 d2 e1 e2 srt by blast
qed

subsection \<open>Classification of the candidate files\<close>

lemma endswith_iff: "endswith s t \<longleftrightarrow> (\<exists>pre. s = pre @ t)"
proof
  assume "endswith s t"
  then have "s = take (length s - length t) s @ t"
    by (metis append_take_drop_id endswith_def)
  then show "\<exists>pre. s = pre @ t" ..
next
  assume "\<exists>pre. s = pre @ t"
  then show "endswith s t"
    by (auto simp add: endswith_def)
qed

lemma rfind_csv: "rfind (s @ ''.csv'') (CHR ''.'') = Some (length s)"
  by (induction s) simp_all

lemma name_stem_csv: "s \<noteq> [] \<Longrightarrow> name_stem (s @ ''.csv'') = s"
  by (simp add: name_stem_def rfind_csv)

lemma name_suffix_csv: "s \<noteq> [] \<Longrightarrow> name_suffix (s @ ''.csv'') = ''.csv''"
  by (simp add: name_suffix_def rfind_csv)

lemma only_column: "(length cols = Suc 0 \<and> cols ! 0 = c) \<longleftrightarrow> cols = [c]"
  by (cases cols) auto

lemma is_already_converted_fs:
  "fs w' = fs w \<Longrightarrow> is_already_converted w' p = is_already_converted w p"
  by (simp add: is_already_converted_def read_csv_def)

lemma process_file_skip:
  assumes "is_already_converted (world_of st) p"
  shows "process_file p st =
           st\<lparr>world_of :=
                print [Pict ''U+23ED'', Lit (''  Skipping '' @ sq), Str (path_name p),
                       Lit (sq @ '' - already converted or no 'ID Subjektu' column'')]
                  (print [Lit [CHR 0x0A], Pict ''U+1F4C4'', Lit '' Processing: '',
                          Str (path_name p)] (world_of st)),
               skipped_count := skipped_count st + 1\<rparr>"
proof -
  have "is_already_converted
          (print [Lit [CHR 0x0A], Pict ''U+1F4C4'', Lit '' Processing: '', Str (path_name p)]
             (world_of st)) p = is_already_converted (world_of st) p"
    by (rule is_already_converted_fs) simp
  then show ?thesis
    using assms
    by (simp add: process_file_def Let_def)
qed

text \<open>
  Claim C3. \<open>is_already_converted\<close> answers \<open>True\<close> for the two classes that the
  driver skips (already converted, ineligible) and \<open>False\<close> for a convertible file.
  A file whose stem ends with \<open>_converted\<close>, such as \<open>x_converted.csv\<close> in any
  folder, is skipped whatever its content; a file that parses to the single column
  \<open>ID\<close> is skipped; a file that parses and has a column \<open>ID Subjektu\<close> is
  convertible (when its name does not carry the marker, the rule that comes first); a
  file that parses and has no column \<open>ID Subjektu\<close> is skipped. On a skipped file the
  driver adds one to the skip counter, converts nothing and changes no file.
\<close>

theorem is_already_converted_classification:
  "(endswith (path_stem p) ''_converted'' \<longrightarrow> is_already_converted w p)
   \<and> is_already_converted w (dir @ [x @ ''_converted.csv''])
   \<and> (read_csv w p = Inr df \<and> columns df = [''ID''] \<longrightarrow> is_already_converted w p)
   \<and> (\<not> endswith (path_stem p) ''_converted'' \<and> read_csv w p = Inr df
        \<and> ''ID Subjektu'' \<in> set (columns df) \<longrightarrow> \<not> is_already_converted w p)
   \<and> (read_csv w p = Inr df \<and> ''ID Subjektu'' \<notin> set (columns df)
        \<longrightarrow> is_already_converted w p)
   \<and> (is_already_converted (world_of st) p
        \<longrightarrow> fs (world_of (process_file p st)) = fs (world_of st)
          \<and> skipped_count (process_file p st) = skipped_count st + 1
          \<and> converted_count (process_file p st) = converted_count st)"
proof -
  have "path_stem (dir @ [x @ ''_converted.csv'']) = x @ ''_converted''"
    using name_stem_csv[of "x @ ''_converted''"] by (simp add: path_stem_def path_name_def)
  then have "endswith (path_stem (dir @ [x @ ''_converted.csv''])) ''_converted''"
    by (simp add: endswith_iff)
  then have 2: "is_already_converted w (dir @ [x @ ''_converted.csv''])"
    by (simp add: is_already_converted_def)
  have 4: "\<not> endswith (path_stem p) ''_converted'' \<and> read_csv w p = Inr df
        \<and> ''ID Subjektu'' \<in> set (columns df) \<longrightarrow> \<not> is_already_converted w p"
    by (auto simp add: is_already_converted_def Let_def only_column)
  have 6: "is_already_converted (world_of st) p
        \<longrightarrow> fs (world_of (process_file p st)) = fs (world_of st)
          \<and> skipped_count (process_file p st) = skipped_count st + 1
          \<and> converted_count (process_file p st) = converted_count st"
    by (simp add: process_file_skip)
  have 1: "endswith (path_stem p) ''_converted'' \<longrightarrow> is_already_converted w p"
    by (simp add: is_already_converted_def)
  have 3: "read_csv w p = Inr df \<and> columns df = [''ID''] \<longrightarrow> is_already_converted w p"
    by (simp add: is_already_converted_def Let_def only_column)
  have 5: "read_csv w p = Inr df \<and> ''ID Subjektu'' \<notin> set (columns df)
        \<longrightarrow> is_already_converted w p"
    by (simp add: is_already_converted_def Let_def)
  show ?thesis
    using 1 2 3 4 5 6 by blast
qed

theorem is_already_converted_classification_witness:
  "endswith (path_stem [''input'', ''x_converted.csv'']) ''_converted''
   \<and> is_already_converted w_class [''input'', ''x_converted.csv'']
   \<and> columns [(''ID'', [Val ''I1''])] = [''ID'']
   \<and> is_already_converted w_class [''input'', ''ids.csv'']
   \<and> \<not> is_already_converted w_class [''input'', ''data.csv'']
   \<and> is_already_converted w_class [''input'', ''other.csv'']
   \<and> fs (world_of (process_file [''input'', ''other.csv''] st_class)) = fs w_class
   \<and> skipped_count (process_file [''input'', ''other.csv''] st_class) = 1
   \<and> converted_count (process_file [''input'', ''other.csv''] st_class) = 0"
proof -
  have e1: "endswith (path_stem [''input'', ''x_converted.csv'']) ''_converted''"
    by code_simp
  have 1: "is_already_converted w_class [''input'', ''x_converted.csv'']"
    using is_already_converted_classification[of "[''input'', ''x_converted.csv'']" w_class] e1
    by blast
  have r2: "read_csv w_class [''input'', ''ids.csv''] = Inr [(''ID'', [Val ''I1''])]"
    by code_simp
  have c2: "columns [(''ID'', [Val ''I1''])] = [''ID'']"
    by code_simp
  have 2: "is_already_converted w_class [''input'', ''ids.csv'']"
    using is_already_converted_classification[of "[''input'', ''ids.csv'']" w_class _ _
        "[(''ID'', [Val ''I1''])]"] r2 c2
    by blast
  have r3: "read_csv w_class [''input'', ''data.csv''] =
      Inr [(''Name'', [Val ''a'']), (''ID Subjektu'', [Val ''D1'']), (''Type'', [Val ''t''])]"
    by code_simp
  have e3: "\<not> endswith (path_stem [''input'', ''data.csv'']) ''_converted''"
    by code_simp
  have c3: "''ID Subjektu'' \<in> set (columns
      [(''Name'', [Val ''a'']), (''ID Subjektu'', [Val ''D1'']), (''Type'', [Val ''t''])])"
    by code_simp
  have 3: "\<not> is_already_converted w_class [''input'', ''data.csv'']"
    using is_already_converted_classification[of "[''input'', ''data.csv'']" w_class _ _
        "[(''Name'', [Val ''a'']), (''ID Subjektu'', [Val ''D1'']), (''Type'', [Val ''t''])]"]
      r3 e3 c3
    by blast
  have r4: "read_csv w_class [''input'', ''other.csv''] =
      Inr [(''Name'', [Val ''a'']), (''Code'', [Val ''O1''])]"
    by code_simp
  have c4: "''ID Subjektu'' \<notin> set (columns [(''Name'', [Val ''a'']), (''Code'', [Val ''O1''])])"
    by code_simp
  note t4 = is_already_converted_classification[of "[''input'', ''other.csv'']" w_class _ _
        "[(''Name'', [Val ''a'']), (''Code'', [Val ''O1''])]" st_class]
  have w: "world_of st_class = w_class" "skipped_count st_class = 0" "converted_count st_class = 0"
    by (simp_all add: st_class_def)
  have 4: "is_already_converted w_class [''input'', ''other.csv'']"
    using t4 r4 c4 by blast
  then have 5: "fs (world_of (process_file [''input'', ''other.csv''] st_class)) = fs w_class
   \<and> skipped_count (process_file [''input'', ''other.csv''] st_class) = 1
   \<and> converted_count (process_file [''input'', ''other.csv''] st_class) = 0"
    using t4 by (simp add: w)
  show ?thesis
    using e1 1 c2 2 3 4 5 by blast
qed

subsection \<open>A candidate file that does not parse\<close>

text \<open>
  Claim C6, as stated, fails: for the file \<open>bad.csv\<close>, which does not parse and does
  not carry the marker, \<open>is_already_converted\<close> answers \<open>False\<close> (line 146), the
  skip counter stays 0 and the converter is called, as its error line shows.
\<close>

theorem parse_failure_not_skipped:
  "\<not> endswith (path_stem [''input'', ''bad.csv'']) ''_converted''
   \<and> read_csv w_bad [''input'', ''bad.csv''] = Inl (ParserError ''Error tokenizing data'')
   \<and> \<not> is_already_converted w_bad [''input'', ''bad.csv'']
   \<and> skipped_count (process_file [''input'', ''bad.csv''] st_bad) = 0
   \<and> out (world_of (process_file [''input'', ''bad.csv''] st_bad)) =
       [[Lit [CHR 0x0A], Pict ''U+1F4C4'', Lit '' Processing: '', Str ''bad.csv''],
        [Pict ''U+274C'', Lit '' Error converting file: '', Str ''Error tokenizing data'']]"
  by code_simp

lemma convert_read_error:
  assumes "read_csv w input_file = Inl e"
  shows "convert_csv_with_merge w input_file output_file pool =
           \<lparr>cr_world = print (convert_error_line input_file e) w,
            cr_merge_ids = pool, cr_result = None\<rparr>"
  using assms
  by (cases e) (simp_all add: convert_csv_with_merge_def convert_try_def convert_error_line_def)

text \<open>
  Claim C6, amended. For a candidate file whose name does not carry the marker and that
  cannot be read, \<open>is_already_converted\<close> answers \<open>False\<close>. The driver then skips
  the file, adding one to the skip counter, only when a file exists at its default output
  path; otherwise it calls the converter, which prints the error and returns the failure
  value: no file is written and neither counter changes.
\<close>

theorem parse_failure_attempted_not_counted:
  assumes "\<not> endswith (path_stem p) ''_converted''"
    and "read_csv (world_of st) p = Inl e"
  shows "\<not> is_already_converted (world_of st) p
         \<and> (path_exists (world_of st) (converted_path p)
              \<longrightarrow> skipped_count (process_file p st) = skipped_count st + 1
                \<and> converted_count (process_file p st) = converted_count st
                \<and> fs (world_of (process_file p st)) = fs (world_of st))
         \<and> (\<not> path_exists (world_of st) (converted_path p)
              \<longrightarrow> process_file p st =
                    st\<lparr>world_of := print (convert_error_line p e)
                                     (print (processing_line p) (world_of st))\<rparr>)"
proof -
  let ?w1 = "print (processing_line p) (world_of st)"
  have n: "\<not> is_already_converted (world_of st) p"
    using assms by (simp add: is_already_converted_def)
  have "is_already_converted ?w1 p = is_already_converted (world_of st) p"
    by (rule is_already_converted_fs) simp
  then have n1: "\<not> is_already_converted ?w1 p"
    using n by simp
  have r1: "read_csv ?w1 p = Inl e"
    using assms(2) by (simp add: read_csv_def)
  have x: "path_exists ?w1 q = path_exists (world_of st) q" for q
    by (simp add: path_exists_def)
  have a: "path_exists (world_of st) (converted_path p)
              \<longrightarrow> skipped_count (process_file p st) = skipped_count st + 1
                \<and> converted_count (process_file p st) = converted_count st
                \<and> fs (world_of (process_file p st)) = fs (world_of st)"
    using n1 x by (simp add: process_file_def Let_def processing_line_def[symmetric])
  have b: "\<not> path_exists (world_of st) (converted_path p)
              \<longrightarrow> process_file p st =
                    st\<lparr>world_of := print (convert_error_line p e) ?w1\<rparr>"
    using n1 x convert_read_error[OF r1]
    by (simp add: process_file_def Let_def processing_line_def[symmetric])
  show ?thesis
    using n a b by blast
qed

theorem parse_failure_attempted_not_counted_witness:
  "\<not> endswith (path_stem [''input'', ''bad.csv'']) ''_converted''
   \<and> read_csv (world_of st_bad) [''input'', ''bad.csv''] =
       Inl (ParserError ''Error tokenizing data'')
   \<and> \<not> path_exists (world_of st_bad) (converted_path [''input'', ''bad.csv''])
   \<and> \<not> is_already_converted (world_of st_bad) [''input'', ''bad.csv'']
   \<and> process_file [''input'', ''bad.csv''] st_bad =
       st_bad\<lparr>world_of :=
                 print (convert_error_line [''input'', ''bad.csv'']
                          (ParserError ''Error tokenizing data''))
                   (print (processing_line [''input'', ''bad.csv'']) (world_of st_bad))\<rparr>"
proof -
  have e: "\<not> endswith (path_stem [''input'', ''bad.csv'']) ''_converted''"
    by code_simp
  have r: "read_csv (world_of st_bad) [''input'', ''bad.csv''] =
       Inl (ParserError ''Error tokenizing data'')"
    by code_simp
  have x: "\<not> path_exists (world_of st_bad) (converted_path [''input'', ''bad.csv''])"
    by code_simp
  show ?thesis
    using parse_failure_attempted_not_counted[OF e r] e r x by blast
qed

subsection \<open>A missing input folder\<close>

text \<open>
  Claim C7, as stated, fails: without input folder the script still ends with the exit
  status 0.
\<close>

theorem missing_input_exit_status_zero:
  "\<not> path_exists w_none [''input''] \<and> snd (script w_none) = 0"
  by code_simp

text \<open>
  Claim C7, amended. When the input folder does not exist, the run prints the two lines
  that report it and nothing else, so that no merge pool is built and no file is
  classified or converted; no file is changed, \<open>main\<close> returns and the script ends
  with the exit status 0, as after any other run.
\<close>

theorem missing_input_reports_and_stops:
  assumes "\<not> path_exists w [''input'']"
  shows "script w =
           (w\<lparr>out := out w @
                 [[Pict ''U+274C'', Lit '' Error: Input folder 'input' does not exist.''],
                  [Lit ''Please create an 'input' folder and place your CSV files there.'']]\<rparr>,
            0)
         \<and> fs (fst (script w)) = fs w"
  using assms by (simp add: script_def main_def main_run_def print_def)

theorem missing_input_reports_and_stops_witness:
  "\<not> path_exists w_none [''input'']
   \<and> script w_none =
       (w_none\<lparr>out :=
           [[Pict ''U+274C'', Lit '' Error: Input folder 'input' does not exist.''],
            [Lit ''Please create an 'input' folder and place your CSV files there.'']]\<rparr>,
        0)
   \<and> fs (fst (script w_none)) = fs w_none"
proof -
  have a: "\<not> path_exists w_none [''input'']"
    by code_simp
  have o: "out w_none = []"
    by (simp add: w_none_def)
  show ?thesis
    using missing_input_reports_and_stops[OF a] a by (simp add: o)
qed

subsection \<open>The effect of a run on the files and on the pool\<close>

lemma extends_by_refl: "fs w' = fs w \<Longrightarrow> extends_by N w w'"
  by (auto simp add: extends_by_def)

lemma extends_by_trans:
  assumes "extends_by N w1 w2" and "extends_by M w2 w3"
  shows "extends_by (N \<union> M) w1 w3"
  unfolding extends_by_def
proof (intro conjI allI impI)
  fix p
  assume "map_of (fs w1) p \<noteq> None"
  then show "map_of (fs w3) p = map_of (fs w1) p"
    using assms unfolding extends_by_def by metis
next
  fix p
  assume "map_of (fs w1) p = None \<and> map_of (fs w3) p \<noteq> None"
  then show "p \<in> N \<union> M"
    using assms unfolding extends_by_def by (metis UnI1 UnI2)
qed

lemma extends_by_update:
  assumes "map_of (fs w) q = None" and "fs w' = AList.update q v (fs w)"
  shows "extends_by {q} w w'"
  using assms by (auto simp add: extends_by_def update_conv')

lemma convert_merge_ids: "cr_merge_ids (convert_csv_with_merge w i ofile pool) = pool"
  by (simp add: convert_csv_with_merge_def split: prod.splits sum.splits exn.splits)

lemma path_exists_fs: "fs w' = fs w \<Longrightarrow> path_exists w' p = path_exists w p"
  by (simp add: path_exists_def)

lemma glob_csv_fs: "fs w' = fs w \<Longrightarrow> glob_csv w' folder = glob_csv w folder"
  by (simp add: glob_csv_def)

lemma settled_fs: "fs w' = fs w \<Longrightarrow> settled w' f = settled w f"
  by (simp add: settled_def is_already_converted_def read_csv_def path_exists_def is_dir_def)

lemma is_dir_mono: "extends_by N w w' \<Longrightarrow> is_dir w p \<Longrightarrow> is_dir w' p"
  by (auto simp add: extends_by_def is_dir_def)

lemma settled_mono:
  assumes "extends_by N w w'" and "map_of (fs w) f \<noteq> None" and "settled w f"
    and "is_dir w (path_parent f)"
  shows "settled w' f"
proof -
  have same: "map_of (fs w') f = map_of (fs w) f"
    using assms(1,2) by (simp add: extends_by_def)
  then have r: "read_csv w' f = read_csv w f"
    by (simp add: read_csv_def)
  then have a: "is_already_converted w' f = is_already_converted w f"
    by (simp add: is_already_converted_def)
  have "path_exists w' q" if "path_exists w q" for q
    using that assms(1) by (simp add: extends_by_def path_exists_def)
  then show ?thesis
    using assms(3,4) a r by (auto simp add: settled_def)
qed

lemma not_converted_has_column:
  assumes "\<not> is_already_converted w f" and "read_csv w f = Inr df"
  shows "\<exists>cells. map_of df ''ID Subjektu'' = Some cells"
proof -
  have "''ID Subjektu'' \<in> set (columns df)"
    using assms by (auto simp add: is_already_converted_def Let_def split: if_splits)
  then show ?thesis
    using column_absent[of df "''ID Subjektu''"] by auto
qed

lemma process_file_exists:
  assumes "\<not> is_already_converted (world_of st) f"
    and "path_exists (world_of st) (converted_path f)"
  shows "process_file f st =
           st\<lparr>world_of :=
                print [Pict ''U+23ED'', Lit (''  Skipping '' @ sq), Str (path_name f),
                       Lit (sq @ '' - converted file already exists: ''),
                       Str (path_name (converted_path f))]
                  (print (processing_line f) (world_of st)),
               skipped_count := skipped_count st + 1\<rparr>"
proof -
  let ?w1 = "print (processing_line f) (world_of st)"
  have "is_already_converted ?w1 f = is_already_converted (world_of st) f"
    by (rule is_already_converted_fs) simp
  moreover have "path_exists ?w1 (converted_path f) = path_exists (world_of st) (converted_path f)"
    by (rule path_exists_fs) simp
  ultimately show ?thesis
    using assms by (simp add: process_file_def Let_def processing_line_def[symmetric])
qed

lemma process_file_convert:
  assumes "\<not> is_already_converted (world_of st) f"
    and "\<not> path_exists (world_of st) (converted_path f)"
  shows "process_file f st =
           (let r = convert_csv_with_merge (print (processing_line f) (world_of st)) f
                      (Some (converted_path f)) (Some (merge_ids st))
            in st\<lparr>world_of := cr_world r,
                    converted_count :=
                      (if cr_result r \<noteq> None then converted_count st + 1
                       else converted_count st)\<rparr>)"
proof -
  let ?w1 = "print (processing_line f) (world_of st)"
  have "is_already_converted ?w1 f = is_already_converted (world_of st) f"
    by (rule is_already_converted_fs) simp
  moreover have "path_exists ?w1 (converted_path f) = path_exists (world_of st) (converted_path f)"
    by (rule path_exists_fs) simp
  ultimately show ?thesis
    using assms
    by (simp add: process_file_def Let_def processing_line_def[symmetric] convert_merge_ids)
qed

lemma process_file_cases:
  "merge_ids (process_file f st) = merge_ids st
   \<and> ((settled (world_of st) f
          \<and> fs (world_of (process_file f st)) = fs (world_of st)
          \<and> converted_count (process_file f st) = converted_count st)
        \<or> (\<not> settled (world_of st) f
            \<and> (\<exists>df. fs (world_of (process_file f st)) =
                       AList.update (converted_path f) (Table df) (fs (world_of st)))
            \<and> converted_count (process_file f st) = converted_count st + 1))"
proof (cases "is_already_converted (world_of st) f")
  case True
  then show ?thesis
    by (simp add: process_file_skip settled_def)
next
  case nc: False
  show ?thesis
  proof (cases "path_exists (world_of st) (converted_path f)")
    case True
    then show ?thesis
      using nc by (simp add: process_file_exists settled_def)
  next
    case ne: False
    let ?w1 = "print (processing_line f) (world_of st)"
    let ?r = "convert_csv_with_merge ?w1 f (Some (converted_path f)) (Some (merge_ids st))"
    have pf: "process_file f st =
        st\<lparr>world_of := cr_world ?r,
            converted_count :=
              (if cr_result ?r \<noteq> None then converted_count st + 1 else converted_count st)\<rparr>"
      using process_file_convert[OF nc ne] by (simp add: Let_def)
    show ?thesis
    proof (cases "read_csv (world_of st) f")
      case (Inl e)
      then have "read_csv ?w1 f = Inl e"
        by (simp add: read_csv_def)
      then have "?r = \<lparr>cr_world = print (convert_error_line f e) ?w1,
            cr_merge_ids = Some (merge_ids st), cr_result = None\<rparr>"
        by (rule convert_read_error)
      then show ?thesis
        using Inl by (simp add: pf settled_def)
    next
      case (Inr df)
      then obtain cells where c: "map_of df ''ID Subjektu'' = Some cells"
        using not_converted_has_column[OF nc] by blast
      have r1: "read_csv ?w1 f = Inr df"
        using Inr by (simp add: read_csv_def)
      have t: "target f (Some (converted_path f)) = converted_path f"
        by (simp add: target_def)
      have pp: "path_parent (converted_path f) = path_parent f"
        by (simp add: converted_path_def path_parent_def)
      have nd: "\<not> is_dir (world_of st) (converted_path f)"
        using ne by (simp add: is_dir_def path_exists_def converted_path_def)
      show ?thesis
      proof (cases "is_dir (world_of st) (path_parent f)")
        case False
        then have "\<not> writable ?w1 (target f (Some (converted_path f)))"
          by (simp add: t writable_def pp)
        then have "cr_result ?r = None" "fs (cr_world ?r) = fs ?w1"
          using convert_unwritable[OF c r1] by blast+
        then show ?thesis
          using False by (simp add: pf settled_def)
      next
        case True
        then have d: "writable ?w1 (target f (Some (converted_path f)))"
          using nd by (simp add: t writable_def pp)
        have ns: "\<not> settled (world_of st) f"
          using nc ne Inr True by (simp add: settled_def)
        have "fs (cr_world ?r) =
            AList.update (converted_path f)
              (Table [(''ID'', map Val (sorted_list_of_set
                         ({s. Val s \<in> set cells} \<union> pool_ids (Some (merge_ids st)))))])
              (fs (world_of st))"
          using convert_ok(2)[OF r1 c d, of "Some (merge_ids st)"] by (simp add: t)
        then have "\<exists>df. fs (cr_world ?r) =
            AList.update (converted_path f) (Table df) (fs (world_of st))"
          by blast
        moreover have "cr_result ?r = Some (converted_path f)"
          using convert_ok(1)[OF r1 c d, of "Some (merge_ids st)"] by (simp add: t)
        ultimately show ?thesis
          using ns by (simp add: pf)
      qed
    qed
  qed
qed

lemma process_file_extends:
  "extends_by {converted_path f} (world_of st) (world_of (process_file f st))"
proof -
  from process_file_cases[of f st]
  consider "fs (world_of (process_file f st)) = fs (world_of st)"
    | df where "\<not> settled (world_of st) f"
      "fs (world_of (process_file f st)) =
         AList.update (converted_path f) (Table df) (fs (world_of st))"
    by blast
  then show ?thesis
  proof cases
    case 1
    then show ?thesis by (rule extends_by_refl)
  next
    case 2
    then have "map_of (fs (world_of st)) (converted_path f) = None"
      by (simp add: settled_def path_exists_def)
    then show ?thesis
      using 2(2) by (rule extends_by_update)
  qed
qed

lemma process_file_settles: "settled (world_of (process_file f st)) f"
proof -
  from process_file_cases[of f st]
  consider "settled (world_of st) f" "fs (world_of (process_file f st)) = fs (world_of st)"
    | df where "fs (world_of (process_file f st)) =
         AList.update (converted_path f) (Table df) (fs (world_of st))"
    by blast
  then show ?thesis
  proof cases
    case 1
    then show ?thesis using settled_fs[OF 1(2), of f] by simp
  next
    case 2
    then show ?thesis
      by (simp add: settled_def path_exists_def update_conv')
  qed
qed

lemma main_loop_merge_ids: "merge_ids (main_loop files st) = merge_ids st"
  by (induction files arbitrary: st) (simp_all add: process_file_cases)

lemma main_loop_frame:
  "extends_by (converted_path ` set files) (world_of st) (world_of (main_loop files st))
   \<and> (\<forall>f\<in>set files. map_of (fs (world_of st)) f \<noteq> None
           \<and> is_dir (world_of st) (path_parent f)
         \<longrightarrow> settled (world_of (main_loop files st)) f)"
proof (induction files arbitrary: st)
  case Nil
  then show ?case by (simp add: extends_by_refl)
next
  case (Cons f files)
  let ?st1 = "process_file f st"
  let ?st' = "main_loop files ?st1"
  have e1: "extends_by {converted_path f} (world_of st) (world_of ?st1)"
    by (rule process_file_extends)
  have e2: "extends_by (converted_path ` set files) (world_of ?st1) (world_of ?st')"
    using Cons.IH[of ?st1] by blast
  have e: "extends_by (converted_path ` set (f # files)) (world_of st) (world_of ?st')"
    using extends_by_trans[OF e1 e2] by simp
  have s: "settled (world_of ?st') g"
    if "g \<in> set (f # files)" "map_of (fs (world_of st)) g \<noteq> None"
      "is_dir (world_of st) (path_parent g)" for g
  proof -
    have ex: "map_of (fs (world_of ?st1)) g \<noteq> None"
      using that(2) e1 by (simp add: extends_by_def)
    have dr: "is_dir (world_of ?st1) (path_parent g)"
      using e1 that(3) by (rule is_dir_mono)
    show ?thesis
    proof (cases "g = f")
      case True
      then show ?thesis
        using settled_mono[OF e2 _ process_file_settles[of f st]] ex dr by simp
    next
      case False
      then have "g \<in> set files" using that(1) by simp
      then show ?thesis
        using Cons.IH[of ?st1] ex dr by blast
    qed
  qed
  show ?case
    using e s by simp
qed

lemma main_loop_settled:
  "\<forall>f\<in>set files. settled (world_of st) f
   \<Longrightarrow> fs (world_of (main_loop files st)) = fs (world_of st)
       \<and> converted_count (main_loop files st) = converted_count st"
proof (induction files arbitrary: st)
  case Nil
  then show ?case by simp
next
  case (Cons f files)
  let ?st1 = "process_file f st"
  have "settled (world_of st) f"
    using Cons.prems by simp
  then have 1: "fs (world_of ?st1) = fs (world_of st)"
    "converted_count ?st1 = converted_count st"
    using process_file_cases[of f st] by auto
  have "\<forall>g\<in>set files. settled (world_of ?st1) g"
    using Cons.prems settled_fs[OF 1(1)] by simp
  then show ?case
    using Cons.IH[of ?st1] 1 by simp
qed

lemma main_fs:
  "fs (main w) = (case main_run w of Inl w' \<Rightarrow> fs w' | Inr st \<Rightarrow> fs (world_of st))"
  by (simp add: main_def summary_def Let_def split: sum.splits)

lemma main_run_cases:
  "(\<exists>w'. main_run w = Inl w' \<and> fs w' = fs w \<and> glob_csv w [''input''] = [])
   \<or> (\<exists>st0. main_run w = Inr (main_loop (glob_csv w [''input'']) st0)
          \<and> fs (world_of st0) = fs w
          \<and> merge_ids st0 = snd (get_merge_ids w)
          \<and> converted_count st0 = 0 \<and> skipped_count st0 = 0)"
proof (cases "path_exists w [''input'']")
  case False
  then show ?thesis
    using glob_csv_absent[OF False] by (simp add: main_run_def)
next
  case True
  obtain w1 pool where g: "get_merge_ids w = (w1, pool)"
    by (cases "get_merge_ids w")
  have f1: "fs w1 = fs w"
    using get_merge_ids_fs[of w] by (simp add: g)
  have gl: "glob_csv w1 [''input''] = glob_csv w [''input'']"
    using f1 by (rule glob_csv_fs)
  show ?thesis
    using True by (auto simp add: main_run_def g gl f1 Let_def)
qed

lemma path_name_converted_path:
  "path_name (converted_path g) = path_stem g @ ''_converted'' @ path_suffix g"
  by (simp add: converted_path_def path_name_def)

lemma converted_path_marked:
  assumes "endswith (path_name g) ''.csv''"
    and "endswith (path_name (converted_path g)) ''.csv''"
  shows "endswith (path_stem (converted_path g)) ''_converted''"
proof -
  obtain s where s: "path_name g = s @ ''.csv''"
    using assms(1) by (auto simp add: endswith_iff)
  show ?thesis
  proof (cases "s = []")
    case True
    then have "path_name (converted_path g) = ''.csv_converted''"
      by (simp add: path_name_converted_path path_stem_def path_suffix_def s
          name_stem_def name_suffix_def)
    then have "\<not> endswith (path_name (converted_path g)) ''.csv''"
      by (simp add: endswith_def)
    then show ?thesis
      using assms(2) by simp
  next
    case False
    then have "path_name (converted_path g) = (s @ ''_converted'') @ ''.csv''"
      by (simp add: path_name_converted_path path_stem_def path_suffix_def s
          name_stem_csv name_suffix_csv)
    moreover have "name_stem ((s @ ''_converted'') @ ''.csv'') = s @ ''_converted''"
      by (rule name_stem_csv) simp
    ultimately have "path_stem (converted_path g) = s @ ''_converted''"
      by (simp only: path_stem_def)
    then show ?thesis
      by (simp add: endswith_iff)
  qed
qed

lemma glob_csv_member:
  "f \<in> set (glob_csv w folder) \<longleftrightarrow>
     map_of (fs w) folder = Some Dir \<and> map_of (fs w) f \<noteq> None \<and> f \<noteq> []
     \<and> path_parent f = folder \<and> endswith (path_name f) ''.csv''"
  by (auto simp add: set_glob_csv)

lemma main_settles:
  assumes "f \<in> set (glob_csv (main w) [''input''])"
  shows "settled (main w) f"
proof -
  from main_run_cases[of w]
  consider w' where "main_run w = Inl w'" "fs w' = fs w" "glob_csv w [''input''] = []"
    | st0 where "main_run w = Inr (main_loop (glob_csv w [''input'']) st0)"
      "fs (world_of st0) = fs w"
    by blast
  then show ?thesis
  proof cases
    case 1
    then have "fs (main w) = fs w"
      by (simp add: main_fs)
    then have "glob_csv (main w) [''input''] = []"
      using 1(3) glob_csv_fs by metis
    then show ?thesis
      using assms by simp
  next
    case 2
    let ?files = "glob_csv w [''input'']"
    let ?st = "main_loop ?files st0"
    have fm: "fs (main w) = fs (world_of ?st)"
      by (simp add: main_fs 2(1))
    have ext: "extends_by (converted_path ` set ?files) (world_of st0) (world_of ?st)"
      and stl: "\<forall>g\<in>set ?files. map_of (fs (world_of st0)) g \<noteq> None
                    \<and> is_dir (world_of st0) (path_parent g)
                  \<longrightarrow> settled (world_of ?st) g"
      using main_loop_frame[of ?files st0] by blast+
    have mem: "map_of (fs (main w)) [''input''] = Some Dir" "map_of (fs (main w)) f \<noteq> None"
      "f \<noteq> []" "path_parent f = [''input'']" "endswith (path_name f) ''.csv''"
      using assms by (simp_all add: glob_csv_member)
    have dir: "map_of (fs w) [''input''] = Some Dir"
    proof (rule ccontr)
      assume n: "map_of (fs w) [''input''] \<noteq> Some Dir"
      then have "?files = []"
        by (simp add: glob_csv_def)
      then have "fs (world_of ?st) = fs w"
        by (simp add: 2(2))
      then show False
        using n mem(1) fm by simp
    qed
    have "settled (world_of ?st) f"
    proof (cases "map_of (fs w) f = None")
      case False
      then have "f \<in> set ?files"
        using dir mem(3,4,5) by (simp add: glob_csv_member)
      moreover have "is_dir (world_of st0) (path_parent f)"
        using dir mem(4) by (simp add: is_dir_def 2(2))
      ultimately show ?thesis
        using stl False by (simp add: 2(2))
    next
      case True
      then have "f \<in> converted_path ` set ?files"
        using ext mem(2) by (simp add: extends_by_def 2(2) fm)
      then obtain g where g: "g \<in> set ?files" "f = converted_path g"
        by blast
      then have "endswith (path_name g) ''.csv''"
        by (simp add: glob_csv_member)
      then have "endswith (path_stem f) ''_converted''"
        using mem(5) g(2) converted_path_marked by blast
      then show ?thesis
        by (simp add: settled_def is_already_converted_def)
    qed
    then show ?thesis
      using settled_fs[OF fm] by simp
  qed
qed

lemma second_run:
  "fs (main (main w)) = fs (main w)
   \<and> (\<forall>st. main_run (main w) = Inr st \<longrightarrow> converted_count st = 0)"
proof -
  let ?w1 = "main w"
  from main_run_cases[of ?w1]
  consider w' where "main_run ?w1 = Inl w'" "fs w' = fs ?w1"
    | st0 where "main_run ?w1 = Inr (main_loop (glob_csv ?w1 [''input'']) st0)"
      "fs (world_of st0) = fs ?w1" "converted_count st0 = 0"
    by blast
  then show ?thesis
  proof cases
    case 1
    then show ?thesis
      by (simp add: main_fs[of ?w1])
  next
    case 2
    have "\<forall>f\<in>set (glob_csv ?w1 [''input'']). settled (world_of st0) f"
      using main_settles[of _ w] settled_fs[OF 2(2)] by simp
    then have "fs (world_of (main_loop (glob_csv ?w1 [''input'']) st0)) = fs (world_of st0)"
      "converted_count (main_loop (glob_csv ?w1 [''input'']) st0) = converted_count st0"
      using main_loop_settled by blast+
    then show ?thesis
      by (simp add: main_fs[of ?w1] 2)
  qed
qed

text \<open>
  Claim C9. A run deletes no file and changes no file that exists: every path of the file
  system before the run has the same node after it. Every path that is new after the run
  is the default output path \<open>stem_converted.suffix\<close> of a CSV file of the input
  folder. No call of the converter changes the pool it is given, the body of the loop
  leaves the pool of the driver as it was, and after the loop the pool is still the one
  that \<open>get_merge_ids\<close> built.
\<close>

theorem main_frame:
  "(\<forall>p. map_of (fs w) p \<noteq> None \<longrightarrow> map_of (fs (main w)) p = map_of (fs w) p)
   \<and> (\<forall>p. map_of (fs w) p = None \<and> map_of (fs (main w)) p \<noteq> None
         \<longrightarrow> (\<exists>f\<in>set (glob_csv w [''input'']). p = converted_path f))
   \<and> cr_merge_ids (convert_csv_with_merge v i ofile pool) = pool
   \<and> merge_ids (process_file f st) = merge_ids st
   \<and> (\<forall>st'. main_run w = Inr st' \<longrightarrow> merge_ids st' = snd (get_merge_ids w))"
proof -
  let ?files = "glob_csv w [''input'']"
  have "extends_by (converted_path ` set ?files) w (main w)
      \<and> (\<forall>st'. main_run w = Inr st' \<longrightarrow> merge_ids st' = snd (get_merge_ids w))"
  proof -
    from main_run_cases[of w]
    consider w' where "main_run w = Inl w'" "fs w' = fs w"
      | st0 where "main_run w = Inr (main_loop ?files st0)" "fs (world_of st0) = fs w"
        "merge_ids st0 = snd (get_merge_ids w)"
      by blast
    then show ?thesis
    proof cases
      case 1
      then have "fs (main w) = fs w"
        by (simp add: main_fs)
      then show ?thesis
        using 1(1) by (simp add: extends_by_refl)
    next
      case 2
      have "extends_by (converted_path ` set ?files) (world_of st0)
              (world_of (main_loop ?files st0))"
        using main_loop_frame[of ?files st0] by blast
      then have "extends_by (converted_path ` set ?files) w (main w)"
        by (simp add: extends_by_def main_fs 2(1,2))
      then show ?thesis
        by (simp add: 2(1,3) main_loop_merge_ids)
    qed
  qed
  then show ?thesis
    using convert_merge_ids[of v i ofile pool] process_file_cases[of f st]
    unfolding extends_by_def by blast
qed

theorem main_frame_witness:
  "map_of (fs w_test) [''input'', ''test_input.csv''] \<noteq> None
   \<and> map_of (fs (main w_test)) [''input'', ''test_input.csv''] =
       map_of (fs w_test) [''input'', ''test_input.csv'']
   \<and> map_of (fs w_test) [''merge'', ''test_merge.csv''] \<noteq> None
   \<and> map_of (fs (main w_test)) [''merge'', ''test_merge.csv''] =
       map_of (fs w_test) [''merge'', ''test_merge.csv'']
   \<and> fs (main w_test) =
       fs w_test @
       [([''input'', ''test_input_converted.csv''],
         Table [(''ID'', [Val ''MERGE-001'', Val ''MERGE-002'', Val ''MERGE-003'',
                          Val ''TEST-001'', Val ''TEST-002''])])]
   \<and> [''input'', ''test_input_converted.csv''] = converted_path [''input'', ''test_input.csv'']
   \<and> (case main_run w_test of
         Inl w' \<Rightarrow> False
       | Inr st \<Rightarrow> merge_ids st = {''MERGE-001'', ''MERGE-002'', ''MERGE-003''})"
proof -
  have a: "map_of (fs w_test) [''input'', ''test_input.csv''] \<noteq> None"
    by code_simp
  have b: "map_of (fs w_test) [''merge'', ''test_merge.csv''] \<noteq> None"
    by code_simp
  have c: "fs (main w_test) =
       fs w_test @
       [([''input'', ''test_input_converted.csv''],
         Table [(''ID'', [Val ''MERGE-001'', Val ''MERGE-002'', Val ''MERGE-003'',
                          Val ''TEST-001'', Val ''TEST-002''])])]"
    by code_simp
  have d: "[''input'', ''test_input_converted.csv''] = converted_path [''input'', ''test_input.csv'']"
    by code_simp
  have e: "(case main_run w_test of
         Inl w' \<Rightarrow> False
       | Inr st \<Rightarrow> merge_ids st = {''MERGE-001'', ''MERGE-002'', ''MERGE-003''})"
    by code_simp
  note t = main_frame[of w_test]
  have a': "map_of (fs (main w_test)) [''input'', ''test_input.csv''] =
       map_of (fs w_test) [''input'', ''test_input.csv'']"
    using t a by blast
  have b': "map_of (fs (main w_test)) [''merge'', ''test_merge.csv''] =
       map_of (fs w_test) [''merge'', ''test_merge.csv'']"
    using t b by blast
  show ?thesis
    using a a' b b' c d e by blast
qed

text \<open>
  Claim C4. For a file that the classifier does not skip, the driver looks at the default
  output path first: when a file exists there it adds one to the skip counter, converts
  nothing and changes no file. A second run on the file system that a first run left
  changes no file at all (so every output file is what it was, byte for byte), and when
  it reaches the loop its converted counter ends at 0.
\<close>

theorem main_idempotent:
  "(\<not> is_already_converted (world_of st) f \<and> path_exists (world_of st) (converted_path f)
      \<longrightarrow> skipped_count (process_file f st) = skipped_count st + 1
        \<and> converted_count (process_file f st) = converted_count st
        \<and> fs (world_of (process_file f st)) = fs (world_of st))
   \<and> fs (main (main w)) = fs (main w)
   \<and> (\<forall>st'. main_run (main w) = Inr st' \<longrightarrow> converted_count st' = 0)"
proof -
  have "skipped_count (process_file f st) = skipped_count st + 1
        \<and> converted_count (process_file f st) = converted_count st
        \<and> fs (world_of (process_file f st)) = fs (world_of st)"
    if "\<not> is_already_converted (world_of st) f" "path_exists (world_of st) (converted_path f)"
    using that by (simp add: process_file_exists)
  then show ?thesis
    using second_run[of w] by blast
qed

theorem main_idempotent_witness:
  "(case main_run w_test of
      Inl w' \<Rightarrow> False
    | Inr st \<Rightarrow> converted_count st = 1 \<and> skipped_count st = 0)
   \<and> (case main_run (main w_test) of
         Inl w' \<Rightarrow> False
       | Inr st \<Rightarrow> converted_count st = 0 \<and> skipped_count st = 2)
   \<and> fs (main (main w_test)) = fs (main w_test)
   \<and> \<not> is_already_converted (world_of st_rerun) [''input'', ''test_input.csv'']
   \<and> path_exists (world_of st_rerun) (converted_path [''input'', ''test_input.csv''])
   \<and> skipped_count (process_file [''input'', ''test_input.csv''] st_rerun) = 1
   \<and> converted_count (process_file [''input'', ''test_input.csv''] st_rerun) = 0
   \<and> fs (world_of (process_file [''input'', ''test_input.csv''] st_rerun)) = fs (main w_test)"
proof -
  have a: "(case main_run w_test of
      Inl w' \<Rightarrow> False
    | Inr st \<Rightarrow> converted_count st = 1 \<and> skipped_count st = 0)"
    by code_simp
  have b: "(case main_run (main w_test) of
         Inl w' \<Rightarrow> False
       | Inr st \<Rightarrow> skipped_count st = 2)"
    by code_simp
  note t = main_idempotent[of st_rerun "[''input'', ''test_input.csv'']" w_test]
  have b': "(case main_run (main w_test) of
         Inl w' \<Rightarrow> False
       | Inr st \<Rightarrow> converted_count st = 0 \<and> skipped_count st = 2)"
    using b t by (cases "main_run (main w_test)") simp_all
  have c: "\<not> is_already_converted (world_of st_rerun) [''input'', ''test_input.csv'']"
    by code_simp
  have d: "path_exists (world_of st_rerun) (converted_path [''input'', ''test_input.csv''])"
    by code_simp
  have w: "world_of st_rerun = main w_test" "skipped_count st_rerun = 0"
    "converted_count st_rerun = 0"
    by (simp_all add: st_rerun_def)
  have e: "skipped_count (process_file [''input'', ''test_input.csv''] st_rerun) = 1
   \<and> converted_count (process_file [''input'', ''test_input.csv''] st_rerun) = 0
   \<and> fs (world_of (process_file [''input'', ''test_input.csv''] st_rerun)) = fs (main w_test)"
    using t c d by (simp add: w)
  have f: "fs (main (main w_test)) = fs (main w_test)"
    using t by blast
  show ?thesis
    using a b' c d e f by blast
qed

end
